theory Spec2Isabelle
  imports Main "HOL-Library.AList" "HOL-Library.Sublist"
begin

section \<open>The IKEA catalogue client (\<^verbatim>\<open>ikea_lib.py\<close>)\<close>

text \<open>
  A shallow embedding of class \<^verbatim>\<open>IkeaApiWrapper\<close>. Python strings are modelled as
  \<^typ>\<open>string\<close>: a character stands for a code point below 256, and in that range the
  only characters of Unicode category Nd (what \<^verbatim>\<open>\d\<close> matches on a \<^verbatim>\<open>str\<close> pattern)
  are the ASCII digits. An exception is a value: every operation that can raise returns
  \<open>Inl\<close> of the exception or \<open>Inr\<close> of its result, together with the state it leaves.
  Logging is left out: a log call changes nothing the client reads, and the only parts of
  one that can raise are the subscripts inside its f-string, which are modelled.
\<close>

subsection \<open>Item identifiers: the pure string helpers\<close>

definition is_digit :: "char \<Rightarrow> bool" where
  "is_digit c = (c \<in> set ''0123456789'')"

text \<open>
  The fragment of Python's \<^verbatim>\<open>re\<close> that the pattern of \<^verbatim>\<open>is_item_no\<close> uses, as a
  sequence of items: \<^verbatim>\<open>\d\<close>, an optional literal character \<^verbatim>\<open>c?\<close>, and the anchor
  \<^verbatim>\<open>$\<close>. \<^verbatim>\<open>re.match\<close> matches at the start of the string (so the leading \<^verbatim>\<open>^\<close> is
  always satisfied) and does not have to use up the string. Without the MULTILINE flag,
  \<^verbatim>\<open>$\<close> holds at the end of the string and also just before a newline that is the
  string's last character.
\<close>

datatype re_item = Digit | Optional char | Dollar

fun re_match :: "re_item list \<Rightarrow> string \<Rightarrow> bool" where
  "re_match [] s = True"
| "re_match (Digit # r) s =
     (case s of [] \<Rightarrow> False | c # cs \<Rightarrow> is_digit c \<and> re_match r cs)"
| "re_match (Optional x # r) s =
     ((case s of [] \<Rightarrow> False | c # cs \<Rightarrow> c = x \<and> re_match r cs) \<or> re_match r s)"
| "re_match (Dollar # r) s = ((s = [] \<or> s = [CHR 0x0A]) \<and> re_match r s)"

text \<open>The pattern \<^verbatim>\<open>^\d{3}\.?\d{3}\.?\d{2}$\<close>.\<close>

definition item_no_pattern :: "re_item list" where
  "item_no_pattern =
     replicate 3 Digit @ [Optional (CHR ''.'')] @ replicate 3 Digit @ [Optional (CHR ''.'')]
       @ replicate 2 Digit @ [Dollar]"

definition is_item_no :: "string \<Rightarrow> bool" where
  "is_item_no itemNo = re_match item_no_pattern itemNo"

text \<open>
  \<^verbatim>\<open>re.sub(cls, repl, s)\<close> for a pattern that is a single character class: every
  character of the class is replaced by \<^verbatim>\<open>repl\<close>, the others are kept.
\<close>

fun re_sub_class :: "(char \<Rightarrow> bool) \<Rightarrow> string \<Rightarrow> string \<Rightarrow> string" where
  "re_sub_class cls repl [] = []"
| "re_sub_class cls repl (c # cs) =
     (if cls c then repl @ re_sub_class cls repl cs else c # re_sub_class cls repl cs)"

text \<open>The class \<^verbatim>\<open>[^0-9]\<close>.\<close>

definition not_0_9 :: "char \<Rightarrow> bool" where
  "not_0_9 c = (c \<notin> set ''0123456789'')"

definition compact_item_no :: "string \<Rightarrow> string" where
  "compact_item_no itemNo = re_sub_class not_0_9 [] itemNo"

text \<open>Python's slice \<^verbatim>\<open>s[i:j]\<close> for \<^verbatim>\<open>0 \<le> i \<le> j\<close>: it never raises.\<close>

definition slice :: "string \<Rightarrow> nat \<Rightarrow> nat \<Rightarrow> string" where
  "slice s i j = take (j - i) (drop i s)"

definition format_item_no :: "string \<Rightarrow> string" where
  "format_item_no itemNo =
     (let itemNo = compact_item_no itemNo
      in slice itemNo 0 3 @ ''.'' @ slice itemNo 3 6 @ ''.'' @ slice itemNo 6 8)"

text \<open>
  The spec's reading of a valid item identifier: eight digits grouped 3-3-2, each of the
  two dots optional, and nothing else.
\<close>

definition spec_item_no :: "string \<Rightarrow> bool" where
  "spec_item_no s =
     (\<exists>a b c d1 d2. s = a @ d1 @ b @ d2 @ c \<and> length a = 3 \<and> length b = 3 \<and> length c = 2
        \<and> list_all is_digit (a @ b @ c) \<and> d1 \<in> {[], ''.''} \<and> d2 \<in> {[], ''.''})"

subsection \<open>Python values and exceptions\<close>

text \<open>
  What \<^verbatim>\<open>json.loads\<close> returns. Numbers are integers here; the client never computes
  with a number, it only tests one for truth.
\<close>

datatype json =
  JNull | JBool bool | JNum int | JStr string | JArr "json list" | JObj "(string \<times> json) list"

text \<open>
  The exceptions that can reach a caller. \<^verbatim>\<open>IkeaException\<close> is the client's own error;
  the others are Python's. Each carries the text that \<^verbatim>\<open>str(e)\<close> is built from (for
  \<^verbatim>\<open>TypeError\<close> a short description, not the interpreter's wording).
\<close>

datatype exn =
  IkeaException string | KeyError string | TypeError string | JSONDecodeError string
  | OSError string

fun str_exn :: "exn \<Rightarrow> string" where
  "str_exn (IkeaException m) = m"
| "str_exn (KeyError k) = [CHR 0x27] @ k @ [CHR 0x27]"
| "str_exn (TypeError m) = m"
| "str_exn (JSONDecodeError m) = m"
| "str_exn (OSError m) = m"

fun is_IkeaException :: "exn \<Rightarrow> bool" where
  "is_IkeaException (IkeaException m) = True"
| "is_IkeaException e = False"

text \<open>\<^verbatim>\<open>needle in haystack\<close> on two strings: the substring test.\<close>

fun starts_with :: "string \<Rightarrow> string \<Rightarrow> bool" where
  "starts_with [] h = True"
| "starts_with (n # ns) [] = False"
| "starts_with (n # ns) (c # cs) = (n = c \<and> starts_with ns cs)"

fun contains_str :: "string \<Rightarrow> string \<Rightarrow> bool" where
  "contains_str needle [] = (needle = [])"
| "contains_str needle (c # cs) = (starts_with needle (c # cs) \<or> contains_str needle cs)"

text \<open>\<^verbatim>\<open>v[k]\<close> for a string key: only a dict can be subscripted by a string.\<close>

fun py_getitem :: "json \<Rightarrow> string \<Rightarrow> exn + json" where
  "py_getitem (JObj kvs) k = (case map_of kvs k of None \<Rightarrow> Inl (KeyError k) | Some v \<Rightarrow> Inr v)"
| "py_getitem v k = Inl (TypeError ''cannot be subscripted by a str'')"

text \<open>
  \<^verbatim>\<open>k in v\<close> for a string \<^verbatim>\<open>k\<close>: a key of a dict, an element of a list, a substring
  of a string; the other values are not containers.
\<close>

fun py_contains :: "string \<Rightarrow> json \<Rightarrow> exn + bool" where
  "py_contains k (JObj kvs) = Inr (map_of kvs k \<noteq> None)"
| "py_contains k (JArr xs) = Inr (JStr k \<in> set xs)"
| "py_contains k (JStr t) = Inr (contains_str k t)"
| "py_contains k v = Inl (TypeError ''argument is not iterable'')"

text \<open>\<^verbatim>\<open>for i in v\<close>: the elements of a list, the keys of a dict, the characters of a string.\<close>

fun py_iter :: "json \<Rightarrow> exn + json list" where
  "py_iter (JArr xs) = Inr xs"
| "py_iter (JObj kvs) = Inr (map (\<lambda>kv. JStr (fst kv)) kvs)"
| "py_iter (JStr t) = Inr (map (\<lambda>c. JStr [c]) t)"
| "py_iter v = Inl (TypeError ''object is not iterable'')"

text \<open>Truth of a value, as \<^verbatim>\<open>not v\<close> tests it.\<close>

fun py_truthy :: "json \<Rightarrow> bool" where
  "py_truthy JNull = False"
| "py_truthy (JBool b) = b"
| "py_truthy (JNum n) = (n \<noteq> 0)"
| "py_truthy (JStr t) = (t \<noteq> [])"
| "py_truthy (JArr xs) = (xs \<noteq> [])"
| "py_truthy (JObj kvs) = (kvs \<noteq> [])"

text \<open>Decimal rendering of a status code, as an f-string formats an \<^verbatim>\<open>int\<close>.\<close>

fun show_nat :: "nat \<Rightarrow> string" where
  "show_nat n =
     (if n < 10 then [''0123456789'' ! n] else show_nat (n div 10) @ [''0123456789'' ! (n mod 10)])"

subsection \<open>The world the client runs in\<close>

text \<open>
  A request as \<^verbatim>\<open>_get\<close> hands it to \<^verbatim>\<open>http.client\<close>: the URL (its host and path
  are what is used), the query parameters and the headers dict as it is at that moment.
\<close>

record request =
  req_url :: string
  req_params :: "(string \<times> string) list"
  req_headers :: "(string \<times> string) list"

text \<open>
  What comes back: an exception raised while parsing the URL, connecting, sending or
  reading (with its text), or a response with status, reason and body.
\<close>

datatype response = ConnFail string | Response nat string string

text \<open>
  A cache path \<^verbatim>\<open>cache_dir / itemNo / name\<close>, kept as its three parts (pathlib's
  normalisation of the middle part is not modelled).
\<close>

type_synonym path = "string \<times> string \<times> string"

text \<open>
  The two dict objects that exist once per process and are shared by all calls: the
  default value of parameter \<^verbatim>\<open>headers\<close> of \<^verbatim>\<open>_get\<close> and that of \<^verbatim>\<open>_get_json\<close>.
  Python evaluates a default once, when the function is defined. No caller in the file
  ever passes \<^verbatim>\<open>headers\<close>, so every call of \<^verbatim>\<open>_get\<close> receives one of these two objects.
\<close>

datatype dict_ref = Get_headers_default | Get_json_headers_default

text \<open>
  The state: the client object's three fields, the files of the cache, the two shared
  dicts, and the trace of requests issued so far. Dicts keep insertion order, so they are
  association lists, changed with \<^const>\<open>AList.update\<close>.
\<close>

record state =
  country :: string
  language :: string
  cache_dir :: string
  files :: "(path \<times> string) list"
  get_headers :: "(string \<times> string) list"
  get_json_headers :: "(string \<times> string) list"
  requests :: "request list"

text \<open>
  The environment, which the repository does not contain: the network (a response may
  depend on the requests made before), whether a write to the cache fails (with the
  error's text), and the \<^verbatim>\<open>json\<close> module: \<^verbatim>\<open>json.loads\<close> on the bytes of a response,
  \<^verbatim>\<open>json.loads\<close> on the decoded text of a file (both may raise; decoding errors are folded
  in), and \<^verbatim>\<open>json.dumps\<close>.
\<close>

record env =
  net :: "request list \<Rightarrow> request \<Rightarrow> response"
  write_error :: "(path \<times> string) list \<Rightarrow> path \<Rightarrow> string option"
  loads_bytes :: "string \<Rightarrow> exn + json"
  loads_text :: "string \<Rightarrow> exn + json"
  dumps :: "json \<Rightarrow> string"

definition CLIENT_ID :: string where
  "CLIENT_ID = ''4863e7d2-1428-4324-890b-ae5dede24fc6''"

definition USER_AGENT :: string where
  "USER_AGENT = ''Blender IKEA Browser ( https://github.com/shish/blender-ikea-browser/ )''"

definition IkeaApiWrapper_init :: "string \<Rightarrow> string \<Rightarrow> state \<Rightarrow> state" where
  "IkeaApiWrapper_init c l s = s\<lparr>country := c, language := l, cache_dir := ''cache''\<rparr>"

definition deref :: "state \<Rightarrow> dict_ref \<Rightarrow> (string \<times> string) list" where
  "deref s r = (case r of Get_headers_default \<Rightarrow> get_headers s
                | Get_json_headers_default \<Rightarrow> get_json_headers s)"

text \<open>\<^verbatim>\<open>d[k] = v\<close> on one of the shared dicts.\<close>

definition setitem :: "dict_ref \<Rightarrow> string \<Rightarrow> string \<Rightarrow> state \<Rightarrow> state" where
  "setitem r k v s =
     (case r of
        Get_headers_default \<Rightarrow> s\<lparr>get_headers := AList.update k v (get_headers s)\<rparr>
      | Get_json_headers_default \<Rightarrow> s\<lparr>get_json_headers := AList.update k v (get_json_headers s)\<rparr>)"

text \<open>
  \<^verbatim>\<open>cache_path.exists()\<close>: whether the cache holds the file. The test itself is taken not
  to fail (an \<^verbatim>\<open>OSError\<close> from the file system other than "not found" is not modelled).
\<close>

definition path_exists :: "state \<Rightarrow> path \<Rightarrow> bool" where
  "path_exists s p = (map_of (files s) p \<noteq> None)"

text \<open>
  \<^verbatim>\<open>cache_path.parent.mkdir(parents=True, exist_ok=True)\<close> followed by
  \<^verbatim>\<open>write_bytes\<close> or \<^verbatim>\<open>write_text\<close>: either the file holds the data afterwards, or an
  \<^verbatim>\<open>OSError\<close> is raised and no file has changed.
\<close>

definition write_file :: "env \<Rightarrow> path \<Rightarrow> string \<Rightarrow> state \<Rightarrow> (exn + unit) \<times> state" where
  "write_file env p data s =
     (case write_error env (files s) p of
        Some m \<Rightarrow> (Inl (OSError m), s)
      | None \<Rightarrow> (Inr (), s\<lparr>files := AList.update p data (files s)\<rparr>))"

text \<open>\<^verbatim>\<open>json.loads(cache_path.read_text())\<close>.\<close>

definition read_json :: "env \<Rightarrow> state \<Rightarrow> path \<Rightarrow> exn + json" where
  "read_json env s p =
     (case map_of (files s) p of
        None \<Rightarrow> Inl (OSError ''No such file or directory'')
      | Some txt \<Rightarrow> loads_text env txt)"

text \<open>
  \<^verbatim>\<open>except Exception as e: raise IkeaException(f"{what}: {e}")\<close> around a block.
\<close>

definition reraise :: "string \<Rightarrow> (exn + 'a) \<times> state \<Rightarrow> (exn + 'a) \<times> state" where
  "reraise what r =
     (case r of
        (Inl e, s) \<Rightarrow> (Inl (IkeaException (what @ '': '' @ str_exn e)), s)
      | (Inr v, s) \<Rightarrow> (Inr v, s))"

subsection \<open>The requests: \<^verbatim>\<open>_get\<close> and \<^verbatim>\<open>_get_json\<close>\<close>

text \<open>
  \<^verbatim>\<open>_get(url, params=..., headers=...)\<close>. The test on the URL and the two assignments
  stand before the \<^verbatim>\<open>try\<close> and change the dict object that was passed. Everything from
  \<^verbatim>\<open>urlparse\<close> to \<^verbatim>\<open>response.read()\<close> is the environment's \<^const>\<open>net\<close>; the status
  check raises inside the \<^verbatim>\<open>try\<close>, so its error is wrapped like any other.
\<close>

definition add_api_headers :: "string \<Rightarrow> dict_ref \<Rightarrow> state \<Rightarrow> state" where
  "add_api_headers url headers s =
     (if contains_str ''web-api.ikea.com'' url
      then setitem headers ''User-Agent'' USER_AGENT (setitem headers ''X-Client-Id'' CLIENT_ID s)
      else s)"

definition priv_get ::
  "env \<Rightarrow> string \<Rightarrow> (string \<times> string) list \<Rightarrow> dict_ref \<Rightarrow> state \<Rightarrow> (exn + string) \<times> state" where
  "priv_get env url params headers s =
     (let s1 = add_api_headers url headers s;
          req = \<lparr>req_url = url, req_params = params, req_headers = deref s1 headers\<rparr>;
          s2 = s1\<lparr>requests := requests s1 @ [req]\<rparr>
      in reraise (''Error fetching '' @ url)
           (case net env (requests s1) req of
              ConnFail m \<Rightarrow> (Inl (OSError m), s2)
            | Response status reason data \<Rightarrow>
                if status < 200 \<or> 300 \<le> status
                then (Inl (IkeaException (''HTTP Error '' @ show_nat status @ '': '' @ reason)), s2)
                else (Inr data, s2)))"

definition priv_get_json ::
  "env \<Rightarrow> string \<Rightarrow> (string \<times> string) list \<Rightarrow> dict_ref \<Rightarrow> state \<Rightarrow> (exn + json) \<times> state" where
  "priv_get_json env url params headers s =
     (case priv_get env url params headers s of
        (Inl e, s1) \<Rightarrow> (Inl e, s1)
      | (Inr resp, s1) \<Rightarrow> (loads_bytes env resp, s1))"

subsection \<open>\<^verbatim>\<open>get_exists\<close>, \<^verbatim>\<open>get_pip\<close>, \<^verbatim>\<open>get_thumbnail\<close>, \<^verbatim>\<open>get_model\<close>\<close>

definition exists_url :: "state \<Rightarrow> string \<Rightarrow> string" where
  "exists_url s itemNo =
     ''https://web-api.ikea.com/'' @ country s @ ''/'' @ language s @ ''/rotera/data/exists/''
       @ itemNo @ ''/''"

definition model_url :: "state \<Rightarrow> string \<Rightarrow> string" where
  "model_url s itemNo =
     ''https://web-api.ikea.com/'' @ country s @ ''/'' @ language s @ ''/rotera/data/model/''
       @ itemNo @ ''/''"

definition pip_url :: "state \<Rightarrow> string \<Rightarrow> string" where
  "pip_url s itemNo =
     ''https://www.ikea.com/'' @ country s @ ''/'' @ language s @ ''/products/''
       @ drop 5 itemNo @ ''/'' @ itemNo @ ''.json''"

text \<open>The body of the \<^verbatim>\<open>try\<close> of \<^verbatim>\<open>get_exists\<close>.\<close>

definition get_exists_download ::
  "env \<Rightarrow> string \<Rightarrow> path \<Rightarrow> state \<Rightarrow> (exn + unit) \<times> state" where
  "get_exists_download env itemNo cache_path s =
     (case priv_get env (exists_url s itemNo) [] Get_headers_default s of
        (Inl e, s1) \<Rightarrow> (Inl e, s1)
      | (Inr data, s1) \<Rightarrow> write_file env cache_path data s1)"

text \<open>
  The last line of \<^verbatim>\<open>get_exists\<close>, after the \<^verbatim>\<open>try\<close>:
  \<^verbatim>\<open>return json.loads(cache_path.read_text())["exists"]\<close>.
\<close>

definition get_exists_return :: "env \<Rightarrow> path \<Rightarrow> state \<Rightarrow> exn + json" where
  "get_exists_return env cache_path s =
     (case read_json env s cache_path of
        Inl e \<Rightarrow> Inl e
      | Inr j \<Rightarrow> py_getitem j ''exists'')"

definition get_exists :: "env \<Rightarrow> string \<Rightarrow> state \<Rightarrow> (exn + json) \<times> state" where
  "get_exists env itemNo s =
     (let cache_path = (cache_dir s, itemNo, ''exists.json'')
      in if \<not> path_exists s cache_path
         then (case reraise (''Error checking model existence for #'' @ itemNo)
                      (get_exists_download env itemNo cache_path s) of
                 (Inl e, s1) \<Rightarrow> (Inl e, s1)
               | (Inr u, s1) \<Rightarrow> (get_exists_return env cache_path s1, s1))
         else (get_exists_return env cache_path s, s))"

definition get_pip_download ::
  "env \<Rightarrow> string \<Rightarrow> path \<Rightarrow> state \<Rightarrow> (exn + unit) \<times> state" where
  "get_pip_download env itemNo cache_path s =
     (case priv_get_json env (pip_url s itemNo) [] Get_json_headers_default s of
        (Inl e, s1) \<Rightarrow> (Inl e, s1)
      | (Inr data, s1) \<Rightarrow> write_file env cache_path (dumps env data) s1)"

definition get_pip :: "env \<Rightarrow> string \<Rightarrow> state \<Rightarrow> (exn + json) \<times> state" where
  "get_pip env itemNo s =
     (let cache_path = (cache_dir s, itemNo, ''pip.json'')
      in if \<not> path_exists s cache_path
         then (case reraise (''Error downloading PIP for #'' @ itemNo)
                      (get_pip_download env itemNo cache_path s) of
                 (Inl e, s1) \<Rightarrow> (Inl e, s1)
               | (Inr u, s1) \<Rightarrow> (read_json env s1 cache_path, s1))
         else (read_json env s cache_path, s))"

definition get_thumbnail_download ::
  "env \<Rightarrow> string \<Rightarrow> path \<Rightarrow> state \<Rightarrow> (exn + unit) \<times> state" where
  "get_thumbnail_download env url cache_path s =
     (case priv_get env url [] Get_headers_default s of
        (Inl e, s1) \<Rightarrow> (Inl e, s1)
      | (Inr data, s1) \<Rightarrow> write_file env cache_path data s1)"

text \<open>The result is the path of the file (\<^verbatim>\<open>str(cache_path)\<close>).\<close>

definition get_thumbnail :: "env \<Rightarrow> string \<Rightarrow> string \<Rightarrow> state \<Rightarrow> (exn + path) \<times> state" where
  "get_thumbnail env itemNo url s =
     (let cache_path = (cache_dir s, itemNo, ''thumbnail.jpg'')
      in if \<not> path_exists s cache_path
         then (case reraise (''Error downloading thumbnail for #'' @ itemNo)
                      (get_thumbnail_download env url cache_path s) of
                 (Inl e, s1) \<Rightarrow> (Inl e, s1)
               | (Inr u, s1) \<Rightarrow> (Inr cache_path, s1))
         else (Inr cache_path, s))"

text \<open>
  The body of the \<^verbatim>\<open>try\<close> of \<^verbatim>\<open>get_model\<close>. \<^verbatim>\<open>_get\<close> concatenates its URL with a
  string before its own \<^verbatim>\<open>try\<close>, so a \<^verbatim>\<open>modelUrl\<close> that is not a string raises
  \<^verbatim>\<open>TypeError\<close> there, before any request.
\<close>

definition get_model_download ::
  "env \<Rightarrow> string \<Rightarrow> path \<Rightarrow> state \<Rightarrow> (exn + unit) \<times> state" where
  "get_model_download env itemNo cache_path s =
     (case get_exists env itemNo s of
        (Inl e, s1) \<Rightarrow> (Inl e, s1)
      | (Inr ex, s1) \<Rightarrow>
          if \<not> py_truthy ex then (Inl (IkeaException (''No model available for #'' @ itemNo)), s1)
          else
            (case priv_get_json env (model_url s1 itemNo) [] Get_json_headers_default s1 of
               (Inl e, s2) \<Rightarrow> (Inl e, s2)
             | (Inr rotera_data, s2) \<Rightarrow>
                 (case py_getitem rotera_data ''modelUrl'' of
                    Inl e \<Rightarrow> (Inl e, s2)
                  | Inr (JStr url) \<Rightarrow>
                      (case priv_get env url [] Get_headers_default s2 of
                         (Inl e, s3) \<Rightarrow> (Inl e, s3)
                       | (Inr data, s3) \<Rightarrow>
                           write_file env cache_path data s3)
                  | Inr v \<Rightarrow> (Inl (TypeError ''unsupported operand type(s) for +''), s2))))"

definition get_model :: "env \<Rightarrow> string \<Rightarrow> state \<Rightarrow> (exn + path) \<times> state" where
  "get_model env itemNo s =
     (let cache_path = (cache_dir s, itemNo, ''model.glb'')
      in if \<not> path_exists s cache_path
         then (case reraise (''Error downloading model for #'' @ itemNo)
                      (get_model_download env itemNo cache_path s) of
                 (Inl e, s1) \<Rightarrow> (Inl e, s1)
               | (Inr u, s1) \<Rightarrow> (Inr cache_path, s1))
         else (Inr cache_path, s))"

subsection \<open>\<^verbatim>\<open>search\<close>\<close>

definition search_url :: "state \<Rightarrow> string" where
  "search_url s =
     ''https://sik.search.blue.cdtapps.com/'' @ country s @ ''/'' @ language s
       @ ''/search-result-page''"

text \<open>The dict \<^verbatim>\<open>params\<close> as it is when the request is made.\<close>

definition search_params :: "string \<Rightarrow> (string \<times> string) list" where
  "search_params query =
     (let params = [(''types'', ''PRODUCT''), (''q'', query), (''size'', ''24''), (''c'', ''sr''),
                    (''v'', ''20210322'')]
      in if is_item_no query then AList.update ''size'' ''1'' params
         else AList.update ''subcategories-style'' ''tree-navigation''
                (AList.update ''autocorrect'' ''true'' params))"

text \<open>
  The four fields the inner loop looks for. The source iterates over a set literal, whose
  order Python does not fix; the order only decides in which order the log lines appear,
  since every missing field leads to the same statements.
\<close>

definition FIELDS :: "string list" where
  "FIELDS = [''itemNo'', ''mainImageUrl'', ''mainImageAlt'', ''pipUrl'']"

text \<open>
  The inner loop: for a field that is not in \<^verbatim>\<open>p\<close> the log line is built from
  \<^verbatim>\<open>p["name"]\<close>, and \<^verbatim>\<open>valid\<close> becomes false.
\<close>

fun check_fields :: "json \<Rightarrow> string list \<Rightarrow> bool \<Rightarrow> exn + bool" where
  "check_fields p [] valid = Inr valid"
| "check_fields p (field # others) valid =
     (case py_contains field p of
        Inl e \<Rightarrow> Inl e
      | Inr True \<Rightarrow> check_fields p others valid
      | Inr False \<Rightarrow>
          (case py_getitem p ''name'' of
             Inl e \<Rightarrow> Inl e
           | Inr name \<Rightarrow> check_fields p others False))"

text \<open>
  \<^verbatim>\<open>self.get_exists(p['itemNo'])\<close>: the value need not be a string, and
  \<^verbatim>\<open>self.cache_dir / itemNo\<close> raises \<^verbatim>\<open>TypeError\<close> for anything else.
\<close>

definition get_exists_value :: "env \<Rightarrow> json \<Rightarrow> state \<Rightarrow> (exn + json) \<times> state" where
  "get_exists_value env v s =
     (case v of
        JStr itemNo \<Rightarrow> get_exists env itemNo s
      | _ \<Rightarrow> (Inl (TypeError ''unsupported operand type(s) for /''), s))"

text \<open>The dict appended to \<^verbatim>\<open>results\<close>, its five subscripts in the order written.\<close>

definition build_result :: "json \<Rightarrow> exn + json" where
  "build_result p =
     (case py_getitem p ''itemNo'' of Inl e \<Rightarrow> Inl e | Inr a \<Rightarrow>
      (case py_getitem p ''name'' of Inl e \<Rightarrow> Inl e | Inr b \<Rightarrow>
       (case py_getitem p ''mainImageUrl'' of Inl e \<Rightarrow> Inl e | Inr c \<Rightarrow>
        (case py_getitem p ''mainImageAlt'' of Inl e \<Rightarrow> Inl e | Inr d \<Rightarrow>
         (case py_getitem p ''pipUrl'' of Inl e \<Rightarrow> Inl e | Inr f \<Rightarrow>
            Inr (JObj [(''itemNo'', a), (''name'', b), (''mainImageUrl'', c),
                       (''mainImageAlt'', d), (''pipUrl'', f)]))))))"

text \<open>
  One round of the outer loop: the element to append, or \<^const>\<open>None\<close> when the item is
  dropped. Nothing here is inside a \<^verbatim>\<open>try\<close>.
\<close>

definition search_item :: "env \<Rightarrow> json \<Rightarrow> state \<Rightarrow> (exn + json option) \<times> state" where
  "search_item env i s =
     (case py_getitem i ''product'' of
        Inl e \<Rightarrow> (Inl e, s)
      | Inr p \<Rightarrow>
          (case check_fields p FIELDS True of
             Inl e \<Rightarrow> (Inl e, s)
           | Inr False \<Rightarrow> (Inr None, s)
           | Inr True \<Rightarrow>
               (case py_getitem p ''itemNo'' of
                  Inl e \<Rightarrow> (Inl e, s)
                | Inr itemNo \<Rightarrow>
                    (case get_exists_value env itemNo s of
                       (Inl e, s1) \<Rightarrow> (Inl e, s1)
                     | (Inr ex, s1) \<Rightarrow>
                         if \<not> py_truthy ex
                         then (case py_getitem p ''name'' of
                                 Inl e \<Rightarrow> (Inl e, s1)
                               | Inr name \<Rightarrow> (Inr None, s1))
                         else (case build_result p of
                                 Inl e \<Rightarrow> (Inl e, s1)
                               | Inr r \<Rightarrow> (Inr (Some r), s1))))))"

fun search_loop :: "env \<Rightarrow> json list \<Rightarrow> json list \<Rightarrow> state \<Rightarrow> (exn + json list) \<times> state" where
  "search_loop env [] results s = (Inr results, s)"
| "search_loop env (i # items) results s =
     (case search_item env i s of
        (Inl e, s1) \<Rightarrow> (Inl e, s1)
      | (Inr None, s1) \<Rightarrow> search_loop env items results s1
      | (Inr (Some r), s1) \<Rightarrow> search_loop env items (results @ [r]) s1)"

text \<open>The four subscripts and the start of the iteration, after the \<^verbatim>\<open>try\<close>.\<close>

definition search_items :: "json \<Rightarrow> exn + json list" where
  "search_items search_results =
     (case py_getitem search_results ''searchResultPage'' of Inl e \<Rightarrow> Inl e | Inr a \<Rightarrow>
      (case py_getitem a ''products'' of Inl e \<Rightarrow> Inl e | Inr b \<Rightarrow>
       (case py_getitem b ''main'' of Inl e \<Rightarrow> Inl e | Inr c \<Rightarrow>
        (case py_getitem c ''items'' of Inl e \<Rightarrow> Inl e | Inr d \<Rightarrow> py_iter d))))"

definition search :: "env \<Rightarrow> string \<Rightarrow> state \<Rightarrow> (exn + json list) \<times> state" where
  "search env query s =
     (case reraise (''Error searching for '' @ query)
             (priv_get_json env (search_url s) (search_params query) Get_json_headers_default s) of
        (Inl e, s1) \<Rightarrow> (Inl e, s1)
      | (Inr search_results, s1) \<Rightarrow>
          (case search_items search_results of
             Inl e \<Rightarrow> (Inl e, s1)
           | Inr items \<Rightarrow> search_loop env items [] s1))"

subsection \<open>Relations between states, for the statements\<close>

text \<open>The client object's three fields are the same in both states.\<close>

definition same_client :: "state \<Rightarrow> state \<Rightarrow> bool" where
  "same_client s s' =
     (country s' = country s \<and> language s' = language s \<and> cache_dir s' = cache_dir s)"

text \<open>
  From \<open>s\<close> to \<open>s'\<close> the client object is unchanged and at most \<open>n\<close> requests were
  added to the trace (none removed or changed).
\<close>

definition grows :: "nat \<Rightarrow> state \<Rightarrow> state \<Rightarrow> bool" where
  "grows n s s' =
     (same_client s s' \<and> (\<exists>rs. requests s' = requests s @ rs \<and> length rs \<le> n))"

text \<open>The same without a bound on the number of requests.\<close>

definition extends :: "state \<Rightarrow> state \<Rightarrow> bool" where
  "extends s s' = (same_client s s' \<and> (\<exists>rs. requests s' = requests s @ rs))"

text \<open>
  The host of a URL as \<^verbatim>\<open>urllib.parse.urlparse(url).netloc\<close> gives it for a URL of the
  form \<^verbatim>\<open>scheme://host/path\<close>: what stands between \<^verbatim>\<open>//\<close> and the next
  \<^verbatim>\<open>/\<close>, \<^verbatim>\<open>?\<close> or \<^verbatim>\<open>#\<close>.
\<close>

definition url_netloc :: "string \<Rightarrow> string" where
  "url_netloc url =
     (let rest = drop 1 (dropWhile (\<lambda>c. c \<noteq> CHR '':'') url)
      in if starts_with ''//'' rest then takeWhile (\<lambda>c. c \<notin> set ''/?#'') (drop 2 rest) else [])"

subsection \<open>A concrete world for the worked examples\<close>

text \<open>
  A freshly started process (both default dicts empty, no cache, no request made) with a
  client for Ireland in English.
\<close>

definition empty_world :: state where
  "empty_world = \<lparr>country = [], language = [], cache_dir = [], files = [], get_headers = [],
                   get_json_headers = [], requests = []\<rparr>"

definition fresh :: state where
  "fresh = IkeaApiWrapper_init ''ie'' ''en'' empty_world"

text \<open>
  An environment given by two tables: the pages a server holds (every other URL answers
  404) and the JSON texts with their parsed values (every other text is malformed). Writes
  succeed.
\<close>

definition parse_with :: "(string \<times> json) list \<Rightarrow> string \<Rightarrow> exn + json" where
  "parse_with table txt =
     (case map_of table txt of
        None \<Rightarrow> Inl (JSONDecodeError ''Expecting value: line 1 column 1 (char 0)'')
      | Some j \<Rightarrow> Inr j)"

definition unparse_with :: "(string \<times> json) list \<Rightarrow> json \<Rightarrow> string" where
  "unparse_with table j =
     (case find (\<lambda>kv. snd kv = j) table of None \<Rightarrow> [] | Some kv \<Rightarrow> fst kv)"

definition server_env :: "(string \<times> string) list \<Rightarrow> (string \<times> json) list \<Rightarrow> env" where
  "server_env pages table =
     \<lparr>net = (\<lambda>history req. case map_of pages (req_url req) of
                               None \<Rightarrow> Response 404 ''Not Found'' []
                             | Some body \<Rightarrow> Response 200 ''OK'' body),
      write_error = (\<lambda>fs p. None),
      loads_bytes = parse_with table,
      loads_text = parse_with table,
      dumps = unparse_with table\<rparr>"

definition shop_pages :: "(string \<times> string) list" where
  \<open>shop_pages =
     [(''https://web-api.ikea.com/ie/en/rotera/data/exists/12345678/'', ''{"exists": true}''),
      (''https://web-api.ikea.com/ie/en/rotera/data/model/12345678/'',
         ''{"modelUrl": "https://cdn.example.com/12345678.glb"}''),
      (''https://cdn.example.com/12345678.glb'', ''glTF''),
      (''https://www.ikea.com/ie/en/images/chair.jpg'', ''JFIF''),
      (''https://www.ikea.com/ie/en/products/678/12345678.json'', ''{"name": "Chair"}''),
      (''https://web-api.ikea.com/ie/en/rotera/data/exists/00000001/'', ''{"exists": false}''),
      (''https://web-api.ikea.com/ie/en/rotera/data/exists/00000002/'', ''{}''),
      (''https://web-api.ikea.com/ie/en/rotera/data/exists/00000003/'', ''<html>busy</html>''),
      (''https://sik.search.blue.cdtapps.com/ie/en/search-result-page'',
         ''{"searchResultPage": {"products": {"main": {"items": [{"product": {"itemNo": "12345678", "mainImageUrl": "https://www.ikea.com/ie/en/images/chair.jpg", "pipUrl": "https://www.ikea.com/ie/en/p/chair-12345678/"}}]}}}}'')]\<close>

definition shop_json :: "(string \<times> json) list" where
  \<open>shop_json =
     [(''{"exists": true}'', JObj [(''exists'', JBool True)]),
      (''{"exists": false}'', JObj [(''exists'', JBool False)]),
      (''{}'', JObj []),
      (''{"modelUrl": "https://cdn.example.com/12345678.glb"}'',
         JObj [(''modelUrl'', JStr ''https://cdn.example.com/12345678.glb'')]),
      (''{"name": "Chair"}'', JObj [(''name'', JStr ''Chair'')]),
      (''{"searchResultPage": {"products": {"main": {"items": [{"product": {"itemNo": "12345678", "mainImageUrl": "https://www.ikea.com/ie/en/images/chair.jpg", "pipUrl": "https://www.ikea.com/ie/en/p/chair-12345678/"}}]}}}}'',
         JObj [(''searchResultPage'', JObj [(''products'', JObj [(''main'', JObj [(''items'',
           JArr [JObj [(''product'', JObj [(''itemNo'', JStr ''12345678''),
             (''mainImageUrl'', JStr ''https://www.ikea.com/ie/en/images/chair.jpg''),
             (''pipUrl'', JStr ''https://www.ikea.com/ie/en/p/chair-12345678/'')])]])])])])])]\<close>

definition shop :: env where
  "shop = server_env shop_pages shop_json"


section \<open>Properties\<close>

subsection \<open>Item identifiers\<close>

lemma re_sub_class_filter: "re_sub_class cls [] s = filter (\<lambda>c. \<not> cls c) s"
  by (induction s) auto

lemma compact_item_no_filter: "compact_item_no s = filter is_digit s"
  by (simp add: compact_item_no_def re_sub_class_filter not_0_9_def[abs_def] is_digit_def[abs_def])

lemma compact_item_no_idem: "compact_item_no (compact_item_no s) = compact_item_no s"
  by (simp add: compact_item_no_filter)

text \<open>What the pattern of \<^const>\<open>is_item_no\<close> accepts, item by item.\<close>

lemma re_match_digits:
  "re_match (replicate n Digit @ r) s \<longleftrightarrow>
     (\<exists>a rest. s = a @ rest \<and> length a = n \<and> list_all is_digit a \<and> re_match r rest)"
proof (induction n arbitrary: s)
  case 0
  then show ?case by simp
next
  case (Suc n)
  show ?case
  proof (cases s)
    case Nil
    then show ?thesis by simp
  next
    case (Cons c cs)
    show ?thesis
    proof
      assume "re_match (replicate (Suc n) Digit @ r) s"
      with Cons have d: "is_digit c" and m: "re_match (replicate n Digit @ r) cs" by simp_all
      from m Suc.IH obtain a rest where "cs = a @ rest" "length a = n" "list_all is_digit a" "re_match r rest"
        by blast
      with d Cons have "s = (c # a) @ rest \<and> length (c # a) = Suc n \<and> list_all is_digit (c # a) \<and> re_match r rest"
        by simp
      then show "\<exists>a rest. s = a @ rest \<and> length a = Suc n \<and> list_all is_digit a \<and> re_match r rest"
        by blast
    next
      assume "\<exists>a rest. s = a @ rest \<and> length a = Suc n \<and> list_all is_digit a \<and> re_match r rest"
      then obtain a rest where h: "s = a @ rest" "length a = Suc n" "list_all is_digit a" "re_match r rest"
        by blast
      from h(2) obtain x a' where a: "a = x # a'" "length a' = n" by (cases a) auto
      with h Cons have "c = x" "cs = a' @ rest" "is_digit x" "list_all is_digit a'" by simp_all
      with a h(4) Suc.IH[of cs] show "re_match (replicate (Suc n) Digit @ r) s"
        using Cons by auto
    qed
  qed
qed

lemma re_match_optional:
  "re_match (Optional x # r) s \<longleftrightarrow> (\<exists>d rest. s = d @ rest \<and> d \<in> {[], [x]} \<and> re_match r rest)"
proof (cases s)
  case Nil
  then show ?thesis by auto
next
  case (Cons c cs)
  show ?thesis
  proof
    assume "re_match (Optional x # r) s"
    with Cons consider "c = x" "re_match r cs" | "re_match r s" by auto
    then show "\<exists>d rest. s = d @ rest \<and> d \<in> {[], [x]} \<and> re_match r rest"
    proof cases
      case 1
      with Cons have "s = [x] @ cs \<and> [x] \<in> {[], [x]} \<and> re_match r cs" by simp
      then show ?thesis by blast
    next
      case 2
      then have "s = [] @ s \<and> [] \<in> {[], [x]} \<and> re_match r s" by simp
      then show ?thesis by blast
    qed
  next
    assume "\<exists>d rest. s = d @ rest \<and> d \<in> {[], [x]} \<and> re_match r rest"
    then obtain d rest where "s = d @ rest" "d \<in> {[], [x]}" "re_match r rest" by blast
    with Cons show "re_match (Optional x # r) s" by auto
  qed
qed

lemma re_match_dollar: "re_match [Dollar] s \<longleftrightarrow> s \<in> {[], [CHR 0x0A]}"
  by simp



lemma is_item_no_decomp:
  "is_item_no s \<longleftrightarrow>
     (\<exists>a d1 b d2 c e. s = a @ d1 @ b @ d2 @ c @ e \<and> length a = 3 \<and> list_all is_digit a
        \<and> d1 \<in> {[], ''.''} \<and> length b = 3 \<and> list_all is_digit b \<and> d2 \<in> {[], ''.''}
        \<and> length c = 2 \<and> list_all is_digit c \<and> e \<in> {[], [CHR 0x0A]})"
  (is "?L \<longleftrightarrow> ?R")
proof -
  let ?r3 = "[Dollar]"
  let ?r2 = "Optional (CHR ''.'') # replicate 2 Digit @ ?r3"
  let ?r1 = "Optional (CHR ''.'') # replicate 3 Digit @ ?r2"
  have unf: "is_item_no s = re_match (replicate 3 Digit @ ?r1) s"
    by (simp add: is_item_no_def item_no_pattern_def)
  show ?thesis
  proof
    assume ?L
    with unf have "re_match (replicate 3 Digit @ ?r1) s" by simp
    then obtain a s1 where a: "s = a @ s1" "length a = 3" "list_all is_digit a" "re_match ?r1 s1"
      unfolding re_match_digits by blast
    from a(4) obtain d1 s2 where d1: "s1 = d1 @ s2" "d1 \<in> {[], ''.''}" "re_match (replicate 3 Digit @ ?r2) s2"
      unfolding re_match_optional by blast
    from d1(3) obtain b s3 where b: "s2 = b @ s3" "length b = 3" "list_all is_digit b" "re_match ?r2 s3"
      unfolding re_match_digits by blast
    from b(4) obtain d2 s4 where d2: "s3 = d2 @ s4" "d2 \<in> {[], ''.''}" "re_match (replicate 2 Digit @ ?r3) s4"
      unfolding re_match_optional by blast
    from d2(3) obtain c e where c: "s4 = c @ e" "length c = 2" "list_all is_digit c" "re_match ?r3 e"
      unfolding re_match_digits by blast
    from c(4) have e: "e \<in> {[], [CHR 0x0A]}" by simp
    from a(1) d1(1) b(1) d2(1) c(1) have "s = a @ d1 @ b @ d2 @ c @ e" by simp
    with a(2,3) d1(2) b(2,3) d2(2) c(2,3) e show ?R by blast
  next
    assume ?R
    then obtain a d1 b d2 c e where h: "s = a @ d1 @ b @ d2 @ c @ e" "length a = 3" "list_all is_digit a"
       "d1 \<in> {[], ''.''}" "length b = 3" "list_all is_digit b" "d2 \<in> {[], ''.''}"
       "length c = 2" "list_all is_digit c" "e \<in> {[], [CHR 0x0A]}"
      by blast
    from h(10) have m5: "re_match ?r3 e" by auto
    from h(8,9) m5 have m4: "re_match (replicate 2 Digit @ ?r3) (c @ e)"
      unfolding re_match_digits by blast
    from h(7) m4 have m3: "re_match ?r2 (d2 @ c @ e)"
      unfolding re_match_optional by blast
    from h(5,6) m3 have m2: "re_match (replicate 3 Digit @ ?r2) (b @ d2 @ c @ e)"
      unfolding re_match_digits by blast
    from h(4) m2 have m1: "re_match ?r1 (d1 @ b @ d2 @ c @ e)"
      unfolding re_match_optional by blast
    from h(2,3) m1 have "re_match (replicate 3 Digit @ ?r1) (a @ d1 @ b @ d2 @ c @ e)"
      unfolding re_match_digits by blast
    with unf h(1) show ?L by simp
  qed
qed

lemma spec_item_noI:
  assumes "length a = 3" "list_all is_digit a" "d1 \<in> {[], ''.''}" "length b = 3" "list_all is_digit b"
    "d2 \<in> {[], ''.''}" "length c = 2" "list_all is_digit c"
  shows "spec_item_no (a @ d1 @ b @ d2 @ c)"
proof -
  from assms(2,5,8) have "list_all is_digit (a @ b @ c)" by simp
  with assms(1,3,4,6,7)
  have "a @ d1 @ b @ d2 @ c = a @ d1 @ b @ d2 @ c \<and> length a = 3 \<and> length b = 3 \<and> length c = 2
        \<and> list_all is_digit (a @ b @ c) \<and> d1 \<in> {[], ''.''} \<and> d2 \<in> {[], ''.''}"
    by (intro conjI refl)
  then show ?thesis unfolding spec_item_no_def by (intro exI)
qed

lemma spec_item_noE:
  assumes "spec_item_no t"
  obtains a d1 b d2 c where "t = a @ d1 @ b @ d2 @ c" "length a = 3" "list_all is_digit a"
    "d1 \<in> {[], ''.''}" "length b = 3" "list_all is_digit b" "d2 \<in> {[], ''.''}"
    "length c = 2" "list_all is_digit c"
proof -
  from assms obtain a b c d1 d2 where h: "t = a @ d1 @ b @ d2 @ c" "length a = 3" "length b = 3" "length c = 2"
      "list_all is_digit (a @ b @ c)" "d1 \<in> {[], ''.''}" "d2 \<in> {[], ''.''}"
    unfolding spec_item_no_def by (elim exE conjE)
  from h(5) have "list_all is_digit a" "list_all is_digit b" "list_all is_digit c" by simp_all
  with h(1-4,6,7) show ?thesis by (intro that)
qed

lemma is_item_no_append:
  assumes "spec_item_no t" "e \<in> {[], [CHR 0x0A]}"
  shows "is_item_no (t @ e)"
proof -
  from assms(1) obtain a d1 b d2 c where h: "t = a @ d1 @ b @ d2 @ c" "length a = 3" "list_all is_digit a"
    "d1 \<in> {[], ''.''}" "length b = 3" "list_all is_digit b" "d2 \<in> {[], ''.''}"
    "length c = 2" "list_all is_digit c"
    by (rule spec_item_noE)
  from h(1) have "t @ e = a @ d1 @ b @ d2 @ c @ e" by simp
  with h(2-9) assms(2)
  have "t @ e = a @ d1 @ b @ d2 @ c @ e \<and> length a = 3 \<and> list_all is_digit a
        \<and> d1 \<in> {[], ''.''} \<and> length b = 3 \<and> list_all is_digit b \<and> d2 \<in> {[], ''.''}
        \<and> length c = 2 \<and> list_all is_digit c \<and> e \<in> {[], [CHR 0x0A]}"
    by (intro conjI)
  then show ?thesis unfolding is_item_no_decomp by (intro exI)
qed

lemma is_item_no_iff:
  "is_item_no s \<longleftrightarrow> spec_item_no s \<or> (\<exists>t. s = t @ [CHR 0x0A] \<and> spec_item_no t)"
proof
  assume "is_item_no s"
  then obtain a d1 b d2 c e where h: "s = a @ d1 @ b @ d2 @ c @ e" "length a = 3" "list_all is_digit a"
     "d1 \<in> {[], ''.''}" "length b = 3" "list_all is_digit b" "d2 \<in> {[], ''.''}"
     "length c = 2" "list_all is_digit c" "e \<in> {[], [CHR 0x0A]}"
    unfolding is_item_no_decomp by (elim exE conjE)
  from h(2-9) have sp: "spec_item_no (a @ d1 @ b @ d2 @ c)" by (rule spec_item_noI)
  from h(10) consider "e = []" | "e = [CHR 0x0A]" by blast
  then show "spec_item_no s \<or> (\<exists>t. s = t @ [CHR 0x0A] \<and> spec_item_no t)"
  proof cases
    case 1
    with h(1) sp show ?thesis by simp
  next
    case 2
    with h(1) have "s = (a @ d1 @ b @ d2 @ c) @ [CHR 0x0A]" by simp
    with sp show ?thesis by blast
  qed
next
  assume r: "spec_item_no s \<or> (\<exists>t. s = t @ [CHR 0x0A] \<and> spec_item_no t)"
  then show "is_item_no s"
  proof
    assume "spec_item_no s"
    then have "is_item_no (s @ [])" by (rule is_item_no_append) simp
    then show ?thesis by simp
  next
    assume "\<exists>t. s = t @ [CHR 0x0A] \<and> spec_item_no t"
    then obtain t where t: "s = t @ [CHR 0x0A]" "spec_item_no t" by blast
    from t(2) have "is_item_no (t @ [CHR 0x0A])" by (rule is_item_no_append) simp
    with t(1) show ?thesis by simp
  qed
qed


lemma not_spec_item_no_newline: "\<not> spec_item_no (''12345678'' @ [CHR 0x0A])"
proof
  assume "spec_item_no (''12345678'' @ [CHR 0x0A])"
  then obtain a b c d1 d2 where h: "''12345678'' @ [CHR 0x0A] = a @ d1 @ b @ d2 @ c"
      "length c = 2" "list_all is_digit (a @ b @ c)"
    unfolding spec_item_no_def by blast
  from h(1) have "last (a @ d1 @ b @ d2 @ c) = CHR 0x0A" by (metis last_snoc)
  moreover from h(2) have "c \<noteq> []" by auto
  ultimately have "last c = CHR 0x0A" by simp
  moreover from h(3) \<open>c \<noteq> []\<close> have "is_digit (last c)" by (simp add: list_all_iff)
  ultimately show False by (simp add: is_digit_def)
qed

text \<open>
  Claim C7. \<^verbatim>\<open>is_item_no\<close> is meant to accept exactly the strings of eight digits grouped
  3-3-2 with optional dots. On the spec's three examples it answers as the spec says, but
  it also accepts the nine-character string \<^verbatim>\<open>"12345678\n"\<close>, which is not of that form:
  \<^verbatim>\<open>$\<close> also matches just before a final newline.
\<close>

theorem is_item_no_trailing_newline:
  "is_item_no (''12345678'' @ [CHR 0x0A]) \<and> \<not> spec_item_no (''12345678'' @ [CHR 0x0A])
   \<and> is_item_no ''123.456.78'' \<and> is_item_no ''12345678'' \<and> \<not> is_item_no ''1234567''"
  using not_spec_item_no_newline
  by (simp add: is_item_no_def item_no_pattern_def is_digit_def numeral_3_eq_3 numeral_2_eq_2)

text \<open>
  Claim C8. Formatting is invariant under prior compaction, for every string and so for
  every valid item identifier, and \<^verbatim>\<open>format_item_no("12345678")\<close> is \<^verbatim>\<open>"123.456.78"\<close>.
\<close>

theorem format_item_no_compact:
  "format_item_no (compact_item_no x) = format_item_no x
   \<and> format_item_no ''12345678'' = ''123.456.78''"
proof
  show "format_item_no (compact_item_no x) = format_item_no x"
    by (simp add: format_item_no_def compact_item_no_idem)
  show "format_item_no ''12345678'' = ''123.456.78''"
    by (simp add: format_item_no_def compact_item_no_def not_0_9_def slice_def)
qed

theorem format_item_no_compact_witness:
  "is_item_no ''123.456.78''
   \<and> format_item_no (compact_item_no ''123.456.78'') = format_item_no ''123.456.78''
   \<and> format_item_no ''123.456.78'' = ''123.456.78''"
proof -
  have "is_item_no ''123.456.78''"
    by (simp add: is_item_no_def item_no_pattern_def is_digit_def numeral_3_eq_3 numeral_2_eq_2)
  moreover have "format_item_no ''123.456.78'' = ''123.456.78''"
    by (simp add: format_item_no_def compact_item_no_def not_0_9_def slice_def)
  ultimately show ?thesis
    using format_item_no_compact [of "''123.456.78''"] by simp
qed

text \<open>
  Claim C10. The two helpers have no failing path, whatever the string: \<^verbatim>\<open>compact_item_no\<close>
  returns the digits of its argument in their order, and \<^verbatim>\<open>format_item_no\<close> returns the
  slices 0-3, 3-6 and 6-8 of those digits joined by dots, so that the empty string gives
  \<^verbatim>\<open>".."\<close>.
\<close>

theorem helpers_total:
  "compact_item_no s = filter is_digit s
   \<and> format_item_no s =
       take 3 (filter is_digit s) @ ''.'' @ take 3 (drop 3 (filter is_digit s)) @ ''.''
         @ take 2 (drop 6 (filter is_digit s))
   \<and> format_item_no [] = ''..''"
  by (simp add: format_item_no_def compact_item_no_filter slice_def Let_def)

theorem helpers_total_witness:
  "compact_item_no ''ab1-2'' = ''12'' \<and> format_item_no ''1234567890'' = ''123.456.78''
   \<and> format_item_no ''12a'' = ''12..''"
  using helpers_total [of "''ab1-2''"] helpers_total [of "''1234567890''"]
    helpers_total [of "''12a''"]
  by (simp add: is_digit_def)

subsection \<open>What each operation does to the state\<close>

text \<open>The wrapper \<^const>\<open>reraise\<close> and the two writes to a shared dict.\<close>

lemma reraise_Inr: "reraise w x = (Inr v, s1) \<longleftrightarrow> x = (Inr v, s1)"
  by (cases x; cases "fst x") (auto simp: reraise_def)

lemma reraise_Inl: "reraise w x = (Inl e, s1) \<Longrightarrow> is_IkeaException e \<and> (\<exists>e'. x = (Inl e', s1))"
  by (cases x; cases "fst x") (auto simp: reraise_def)

lemma snd_reraise: "snd (reraise w x) = snd x"
  by (cases x; cases "fst x") (auto simp: reraise_def)

lemma setitem_frame:
  "country (setitem r k v s) = country s" "language (setitem r k v s) = language s"
  "cache_dir (setitem r k v s) = cache_dir s" "files (setitem r k v s) = files s"
  "requests (setitem r k v s) = requests s"
  by (cases r; simp add: setitem_def)+

lemma add_api_headers_frame:
  "country (add_api_headers u h s) = country s" "language (add_api_headers u h s) = language s"
  "cache_dir (add_api_headers u h s) = cache_dir s" "files (add_api_headers u h s) = files s"
  "requests (add_api_headers u h s) = requests s"
  by (simp_all add: add_api_headers_def setitem_frame)

text \<open>One call of \<^verbatim>\<open>_get\<close> adds one request and touches neither the client nor a file.\<close>

lemma snd_priv_get:
  "snd (priv_get env url ps h s) =
     (add_api_headers url h s)\<lparr>requests := requests s @
        [\<lparr>req_url = url, req_params = ps, req_headers = deref (add_api_headers url h s) h\<rparr>]\<rparr>"
  by (simp add: priv_get_def Let_def snd_reraise add_api_headers_frame split: response.split)

lemma same_client_refl: "same_client s s"
  by (simp add: same_client_def)

lemma same_client_trans: "same_client s s1 \<Longrightarrow> same_client s1 s2 \<Longrightarrow> same_client s s2"
  by (simp add: same_client_def)

lemma priv_get_frame: "same_client s (snd (priv_get env url ps h s))"
  by (simp add: snd_priv_get same_client_def add_api_headers_frame)

lemma priv_get_files: "files (snd (priv_get env url ps h s)) = files s"
  by (simp add: snd_priv_get add_api_headers_frame)

lemma priv_get_requests:
  "requests (snd (priv_get env url ps h s)) =
     requests s @ [\<lparr>req_url = url, req_params = ps,
                    req_headers = deref (add_api_headers url h s) h\<rparr>]"
  by (simp add: snd_priv_get)

lemma snd_priv_get_json: "snd (priv_get_json env url ps h s) = snd (priv_get env url ps h s)"
  by (cases "priv_get env url ps h s"; cases "fst (priv_get env url ps h s)")
     (auto simp: priv_get_json_def)

lemma snd_write_file:
  "snd (write_file env p d s) =
     (if write_error env (files s) p = None then s\<lparr>files := AList.update p d (files s)\<rparr> else s)"
  by (cases "write_error env (files s) p") (simp_all add: write_file_def)

lemma write_file_Inr:
  "write_file env p d s = (Inr u, s1) \<Longrightarrow> s1 = s\<lparr>files := AList.update p d (files s)\<rparr>"
  by (cases "write_error env (files s) p") (simp_all add: write_file_def)

lemma write_file_Inl: "write_file env p d s = (Inl e, s1) \<Longrightarrow> s1 = s"
  by (cases "write_error env (files s) p") (simp_all add: write_file_def)

lemma write_file_frame: "same_client s (snd (write_file env p d s))"
  by (simp add: snd_write_file same_client_def)

lemma write_file_requests: "requests (snd (write_file env p d s)) = requests s"
  by (simp add: snd_write_file)

lemma path_exists_update:
  "path_exists (s\<lparr>files := AList.update p d (files s)\<rparr>) q \<longleftrightarrow> q = p \<or> path_exists s q"
  by (auto simp: path_exists_def update_conv')

lemma read_json_update_other:
  "q \<noteq> p \<Longrightarrow> read_json env (s\<lparr>files := AList.update p d (files s)\<rparr>) q = read_json env s q"
  by (simp add: read_json_def update_conv')

text \<open>The shape that the download blocks share: a fetch, then a write of what came back.\<close>

lemma fetch_then_write:
  assumes "(case m of (Inl e, s1) \<Rightarrow> (Inl e, s1) | (Inr d, s1) \<Rightarrow> write_file env p (g d) s1) = (r, s2)"
  shows "(\<exists>e. r = Inl e \<and> s2 = snd m)
         \<or> (\<exists>d. r = Inr () \<and> s2 = (snd m)\<lparr>files := AList.update p d (files (snd m))\<rparr>)"
proof (cases m)
  case (Pair a s1)
  show ?thesis
  proof (cases a)
    case (Inl e)
    with Pair assms show ?thesis by auto
  next
    case (Inr d)
    with Pair assms have w: "write_file env p (g d) s1 = (r, s2)" by simp
    show ?thesis
    proof (cases r)
      case (Inl e)
      with w have "s2 = s1" by (simp add: write_file_Inl)
      with Inl Pair show ?thesis by simp
    next
      case (Inr u)
      with w have "s2 = s1\<lparr>files := AList.update p (g d) (files s1)\<rparr>" by (simp add: write_file_Inr)
      with Inr Pair show ?thesis by auto
    qed
  qed
qed

lemma get_exists_download_cases:
  assumes "get_exists_download env i p s = (r, s2)"
  shows "(\<exists>e. r = Inl e \<and> s2 = snd (priv_get env (exists_url s i) [] Get_headers_default s))
         \<or> (\<exists>d. r = Inr () \<and> s2 = (snd (priv_get env (exists_url s i) [] Get_headers_default s))
                 \<lparr>files := AList.update p d (files s)\<rparr>)"
  using fetch_then_write[OF assms[unfolded get_exists_download_def]]
  by (simp add: priv_get_files)

lemma get_thumbnail_download_cases:
  assumes "get_thumbnail_download env url p s = (r, s2)"
  shows "(\<exists>e. r = Inl e \<and> s2 = snd (priv_get env url [] Get_headers_default s))
         \<or> (\<exists>d. r = Inr () \<and> s2 = (snd (priv_get env url [] Get_headers_default s))
                 \<lparr>files := AList.update p d (files s)\<rparr>)"
  using fetch_then_write[OF assms[unfolded get_thumbnail_download_def]]
  by (simp add: priv_get_files)

lemma get_pip_download_cases:
  assumes "get_pip_download env i p s = (r, s2)"
  shows "(\<exists>e. r = Inl e \<and> s2 = snd (priv_get env (pip_url s i) [] Get_json_headers_default s))
         \<or> (\<exists>d. r = Inr () \<and> s2 = (snd (priv_get env (pip_url s i) [] Get_json_headers_default s))
                 \<lparr>files := AList.update p d (files s)\<rparr>)"
  using fetch_then_write[OF assms[unfolded get_pip_download_def]]
  by (simp add: priv_get_files snd_priv_get_json)

lemma reraise_Inl_eq: "reraise w (Inl e, s) = (Inl (IkeaException (w @ '': '' @ str_exn e)), s)"
  by (simp add: reraise_def)

lemma reraise_Inr_eq: "reraise w (Inr v, s) = (Inr v, s)"
  by (simp add: reraise_def)

text \<open>
  The three ways a cache-first operation can run: the file is there; the download fails
  with the client error; the download writes the file and the operation goes on.
\<close>

lemma get_exists_cases:
  assumes "get_exists env i s = (r, s1)"
  shows "(path_exists s (cache_dir s, i, ''exists.json'') \<and> s1 = s
            \<and> r = get_exists_return env (cache_dir s, i, ''exists.json'') s)
       \<or> (\<not> path_exists s (cache_dir s, i, ''exists.json'')
            \<and> s1 = snd (priv_get env (exists_url s i) [] Get_headers_default s)
            \<and> (\<exists>m. r = Inl (IkeaException m)))
       \<or> (\<not> path_exists s (cache_dir s, i, ''exists.json'')
            \<and> (\<exists>d. s1 = (snd (priv_get env (exists_url s i) [] Get_headers_default s))
                   \<lparr>files := AList.update (cache_dir s, i, ''exists.json'') d (files s)\<rparr>)
            \<and> r = get_exists_return env (cache_dir s, i, ''exists.json'') s1)"
proof (cases "path_exists s (cache_dir s, i, ''exists.json'')")
  case True
  with assms show ?thesis by (auto simp: get_exists_def Let_def)
next
  case False
  obtain a s2 where d: "get_exists_download env i (cache_dir s, i, ''exists.json'') s = (a, s2)"
    by (cases "get_exists_download env i (cache_dir s, i, ''exists.json'') s")
  note c = get_exists_download_cases[OF d]
  show ?thesis
  proof (cases a)
    case (Inl e)
    with assms False d have "r = Inl (IkeaException ((''Error checking model existence for #'' @ i) @ '': '' @ str_exn e))" "s1 = s2"
      by (auto simp: get_exists_def Let_def reraise_Inl_eq)
    with c Inl False show ?thesis by auto
  next
    case (Inr u)
    with assms False d have "r = get_exists_return env (cache_dir s, i, ''exists.json'') s2" "s1 = s2"
      by (auto simp: get_exists_def Let_def reraise_Inr_eq)
    with c Inr False show ?thesis by auto
  qed
qed

lemma get_pip_cases:
  assumes "get_pip env i s = (r, s1)"
  shows "(path_exists s (cache_dir s, i, ''pip.json'') \<and> s1 = s
            \<and> r = read_json env s (cache_dir s, i, ''pip.json''))
       \<or> (\<not> path_exists s (cache_dir s, i, ''pip.json'')
            \<and> s1 = snd (priv_get env (pip_url s i) [] Get_json_headers_default s)
            \<and> (\<exists>m. r = Inl (IkeaException m)))
       \<or> (\<not> path_exists s (cache_dir s, i, ''pip.json'')
            \<and> (\<exists>d. s1 = (snd (priv_get env (pip_url s i) [] Get_json_headers_default s))
                   \<lparr>files := AList.update (cache_dir s, i, ''pip.json'') d (files s)\<rparr>)
            \<and> r = read_json env s1 (cache_dir s, i, ''pip.json''))"
proof (cases "path_exists s (cache_dir s, i, ''pip.json'')")
  case True
  with assms show ?thesis by (auto simp: get_pip_def Let_def)
next
  case False
  obtain a s2 where d: "get_pip_download env i (cache_dir s, i, ''pip.json'') s = (a, s2)"
    by (cases "get_pip_download env i (cache_dir s, i, ''pip.json'') s")
  note c = get_pip_download_cases[OF d]
  show ?thesis
  proof (cases a)
    case (Inl e)
    with assms False d have "r = Inl (IkeaException ((''Error downloading PIP for #'' @ i) @ '': '' @ str_exn e))" "s1 = s2"
      by (auto simp: get_pip_def Let_def reraise_Inl_eq)
    with c Inl False show ?thesis by auto
  next
    case (Inr u)
    with assms False d have "r = read_json env s2 (cache_dir s, i, ''pip.json'')" "s1 = s2"
      by (auto simp: get_pip_def Let_def reraise_Inr_eq)
    with c Inr False show ?thesis by auto
  qed
qed

lemma get_thumbnail_cases:
  assumes "get_thumbnail env i url s = (r, s1)"
  shows "(path_exists s (cache_dir s, i, ''thumbnail.jpg'') \<and> s1 = s
            \<and> r = Inr (cache_dir s, i, ''thumbnail.jpg''))
       \<or> (\<not> path_exists s (cache_dir s, i, ''thumbnail.jpg'')
            \<and> s1 = snd (priv_get env url [] Get_headers_default s)
            \<and> (\<exists>m. r = Inl (IkeaException m)))
       \<or> (\<not> path_exists s (cache_dir s, i, ''thumbnail.jpg'')
            \<and> (\<exists>d. s1 = (snd (priv_get env url [] Get_headers_default s))
                   \<lparr>files := AList.update (cache_dir s, i, ''thumbnail.jpg'') d (files s)\<rparr>)
            \<and> r = Inr (cache_dir s, i, ''thumbnail.jpg''))"
proof (cases "path_exists s (cache_dir s, i, ''thumbnail.jpg'')")
  case True
  with assms show ?thesis by (auto simp: get_thumbnail_def Let_def)
next
  case False
  obtain a s2 where d: "get_thumbnail_download env url (cache_dir s, i, ''thumbnail.jpg'') s = (a, s2)"
    by (cases "get_thumbnail_download env url (cache_dir s, i, ''thumbnail.jpg'') s")
  note c = get_thumbnail_download_cases[OF d]
  show ?thesis
  proof (cases a)
    case (Inl e)
    with assms False d have "r = Inl (IkeaException ((''Error downloading thumbnail for #'' @ i) @ '': '' @ str_exn e))" "s1 = s2"
      by (auto simp: get_thumbnail_def Let_def reraise_Inl_eq)
    with c Inl False show ?thesis by auto
  next
    case (Inr u)
    with assms False d have "r = Inr (cache_dir s, i, ''thumbnail.jpg'')" "s1 = s2"
      by (auto simp: get_thumbnail_def Let_def reraise_Inr_eq)
    with c Inr False show ?thesis by auto
  qed
qed

text \<open>How far the trace of requests can grow.\<close>

lemma grows_refl: "grows 0 s s"
  by (simp add: grows_def same_client_refl)

lemma grows_trans: "grows n s s1 \<Longrightarrow> grows m s1 s2 \<Longrightarrow> grows (n + m) s s2"
  unfolding grows_def
  by (elim conjE exE) (auto intro: same_client_trans)

lemma grows_mono: "grows n s s' \<Longrightarrow> n \<le> m \<Longrightarrow> grows m s s'"
  unfolding grows_def by (elim conjE exE) auto

lemma grows_files_update: "grows n s s' \<Longrightarrow> grows n s (s'\<lparr>files := f\<rparr>)"
  by (simp add: grows_def same_client_def)

lemma priv_get_grows: "grows (Suc 0) s (snd (priv_get env url ps h s))"
  unfolding grows_def
  by (intro conjI exI[of _ "[\<lparr>req_url = url, req_params = ps,
        req_headers = deref (add_api_headers url h s) h\<rparr>]"])
     (simp_all add: priv_get_frame priv_get_requests)

lemma priv_get_json_grows: "grows (Suc 0) s (snd (priv_get_json env url ps h s))"
  by (simp add: snd_priv_get_json priv_get_grows)

lemma write_file_grows: "grows 0 s (snd (write_file env p d s))"
  by (simp add: grows_def write_file_frame write_file_requests)

lemma get_exists_grows: "grows (Suc 0) s (snd (get_exists env i s))"
proof -
  obtain r s1 where g: "get_exists env i s = (r, s1)" by (cases "get_exists env i s")
  from get_exists_cases[OF g] have "grows (Suc 0) s s1"
    by (elim disjE conjE exE)
       (auto intro: grows_mono[OF grows_refl] priv_get_grows grows_files_update)
  with g show ?thesis by simp
qed

lemma get_pip_grows: "grows (Suc 0) s (snd (get_pip env i s))"
proof -
  obtain r s1 where g: "get_pip env i s = (r, s1)" by (cases "get_pip env i s")
  from get_pip_cases[OF g] have "grows (Suc 0) s s1"
    by (elim disjE conjE exE)
       (auto intro: grows_mono[OF grows_refl] priv_get_grows grows_files_update)
  with g show ?thesis by simp
qed

lemma get_thumbnail_grows: "grows (Suc 0) s (snd (get_thumbnail env i url s))"
proof -
  obtain r s1 where g: "get_thumbnail env i url s = (r, s1)" by (cases "get_thumbnail env i url s")
  from get_thumbnail_cases[OF g] have "grows (Suc 0) s s1"
    by (elim disjE conjE exE)
       (auto intro: grows_mono[OF grows_refl] priv_get_grows grows_files_update)
  with g show ?thesis by simp
qed

lemma cached_after:
  assumes "s1 = s'\<lparr>files := AList.update (cache_dir s, i, f) d (files s)\<rparr>" "cache_dir s' = cache_dir s"
  shows "path_exists s1 (cache_dir s1, i, f)"
  using assms by (simp add: path_exists_def update_conv')

lemma priv_get_cache_dir: "cache_dir (snd (priv_get env url ps h s)) = cache_dir s"
  using priv_get_frame[of s env url ps h] by (simp add: same_client_def)

text \<open>A call that returned finds its file on the next call.\<close>

lemma get_pip_again:
  assumes "get_pip env i s = (Inr v, s1)"
  shows "get_pip env i s1 = (Inr v, s1)"
proof -
  from get_pip_cases[OF assms]
  have "cache_dir s1 = cache_dir s \<and> path_exists s1 (cache_dir s, i, ''pip.json'')
        \<and> Inr v = read_json env s1 (cache_dir s, i, ''pip.json'')"
    by (elim disjE conjE exE) (simp_all add: priv_get_cache_dir path_exists_def update_conv')
  then show ?thesis by (simp add: get_pip_def Let_def)
qed

lemma get_exists_again:
  assumes "get_exists env i s = (Inr v, s1)"
  shows "get_exists env i s1 = (Inr v, s1)"
proof -
  from get_exists_cases[OF assms]
  have "cache_dir s1 = cache_dir s \<and> path_exists s1 (cache_dir s, i, ''exists.json'')
        \<and> Inr v = get_exists_return env (cache_dir s, i, ''exists.json'') s1"
    by (elim disjE conjE exE) (simp_all add: priv_get_cache_dir path_exists_def update_conv')
  then show ?thesis by (simp add: get_exists_def Let_def)
qed

lemma get_thumbnail_again:
  assumes "get_thumbnail env i url s = (Inr v, s1)"
  shows "get_thumbnail env i url' s1 = (Inr v, s1)"
proof -
  from get_thumbnail_cases[OF assms]
  have "cache_dir s1 = cache_dir s \<and> path_exists s1 (cache_dir s, i, ''thumbnail.jpg'')
        \<and> v = (cache_dir s, i, ''thumbnail.jpg'')"
    by (elim disjE conjE exE) (simp_all add: priv_get_cache_dir path_exists_def update_conv')
  then show ?thesis by (simp add: get_thumbnail_def Let_def)
qed

lemma get_model_download_grows:
  "grows 3 s (snd (get_model_download env i p s))"
proof -
  obtain a s1 where ge: "get_exists env i s = (a, s1)" by (cases "get_exists env i s")
  from get_exists_grows[of s env i] ge have g1: "grows (Suc 0) s s1" by simp
  then have g1': "grows 3 s s1" by (rule grows_mono) simp
  show ?thesis
  proof (cases a)
    case (Inl e)
    with ge g1' show ?thesis by (simp add: get_model_download_def)
  next
    case ex: (Inr ex)
    show ?thesis
    proof (cases "py_truthy ex")
      case False
      with ge ex g1' show ?thesis by (simp add: get_model_download_def)
    next
      case True
      obtain b s2 where pj: "priv_get_json env (model_url s1 i) [] Get_json_headers_default s1 = (b, s2)"
        by (cases "priv_get_json env (model_url s1 i) [] Get_json_headers_default s1")
      from priv_get_json_grows[of s1 env "model_url s1 i" "[]" Get_json_headers_default] pj
      have "grows (Suc 0) s1 s2" by simp
      with g1 have "grows (Suc 0 + Suc 0) s s2" by (rule grows_trans)
      then have g2: "grows 2 s s2" by (simp add: numeral_2_eq_2)
      then have g2': "grows 3 s s2" by (rule grows_mono) simp
      show ?thesis
      proof (cases b)
        case (Inl e)
        with ge ex True pj g2' show ?thesis by (simp add: get_model_download_def)
      next
        case rd: (Inr rd)
        show ?thesis
        proof (cases "py_getitem rd ''modelUrl''")
          case (Inl e)
          with ge ex True pj rd g2' show ?thesis by (simp add: get_model_download_def)
        next
          case mu: (Inr mu)
          show ?thesis
          proof (cases "\<exists>url. mu = JStr url")
            case False
            with ge ex True pj rd mu g2' show ?thesis
              by (cases mu) (simp_all add: get_model_download_def)
          next
            case True
            then obtain url where url: "mu = JStr url" by blast
            obtain c s3 where pg: "priv_get env url [] Get_headers_default s2 = (c, s3)"
              by (cases "priv_get env url [] Get_headers_default s2")
            from priv_get_grows[of s2 env url "[]" Get_headers_default] pg
            have "grows (Suc 0) s2 s3" by simp
            with g2 have "grows (2 + Suc 0) s s3" by (rule grows_trans)
            then have g3: "grows 3 s s3" by simp
            show ?thesis
            proof (cases c)
              case (Inl e)
              with ge ex \<open>py_truthy ex\<close> pj rd mu url pg g3 show ?thesis
                by (simp add: get_model_download_def)
            next
              case (Inr data)
              from g3 write_file_grows[of s3 env p data]
              have "grows (3 + 0) s (snd (write_file env p data s3))" by (rule grows_trans)
              with ge ex \<open>py_truthy ex\<close> pj rd mu url pg Inr show ?thesis
                by (simp add: get_model_download_def)
            qed
          qed
        qed
      qed
    qed
  qed
qed

lemma get_model_download_Inr:
  assumes "get_model_download env i p s = (Inr u, s2)"
  shows "path_exists s2 p"
  using assms
  by (auto simp: get_model_download_def path_exists_def update_conv'
      split: prod.splits sum.splits if_splits json.splits dest!: write_file_Inr)

lemma get_model_download_cache_dir:
  "cache_dir (snd (get_model_download env i p s)) = cache_dir s"
  using get_model_download_grows[of s env i p] by (simp add: grows_def same_client_def)

lemma get_model_again:
  assumes "get_model env i s = (Inr v, s1)"
  shows "get_model env i s1 = (Inr v, s1)"
proof (cases "path_exists s (cache_dir s, i, ''model.glb'')")
  case True
  with assms show ?thesis by (auto simp: get_model_def Let_def)
next
  case False
  obtain a s2 where d: "get_model_download env i (cache_dir s, i, ''model.glb'') s = (a, s2)"
    by (cases "get_model_download env i (cache_dir s, i, ''model.glb'') s")
  show ?thesis
  proof (cases a)
    case (Inl e)
    with assms False d show ?thesis by (simp add: get_model_def Let_def reraise_Inl_eq)
  next
    case (Inr u)
    with assms False d have e: "v = (cache_dir s, i, ''model.glb'')" "s1 = s2"
      by (auto simp: get_model_def Let_def reraise_Inr_eq)
    from d Inr have "path_exists s2 (cache_dir s, i, ''model.glb'')"
      by (simp add: get_model_download_Inr)
    moreover from get_model_download_cache_dir[of env i "(cache_dir s, i, ''model.glb'')" s] d
    have "cache_dir s2 = cache_dir s" by simp
    ultimately show ?thesis using e by (simp add: get_model_def Let_def)
  qed
qed

lemma get_model_grows: "grows 3 s (snd (get_model env i s))"
proof (cases "path_exists s (cache_dir s, i, ''model.glb'')")
  case True
  then show ?thesis by (simp add: get_model_def Let_def grows_mono[OF grows_refl])
next
  case False
  then have "snd (get_model env i s) = snd (get_model_download env i (cache_dir s, i, ''model.glb'') s)"
    by (cases "get_model_download env i (cache_dir s, i, ''model.glb'') s";
        cases "fst (get_model_download env i (cache_dir s, i, ''model.glb'') s)")
       (auto simp: get_model_def Let_def reraise_def)
  then show ?thesis by (simp add: get_model_download_grows)
qed

lemma get_model_no_model:
  assumes "\<not> path_exists s (cache_dir s, i, ''model.glb'')"
    and "get_exists env i s = (Inr v, s1)" and "\<not> py_truthy v"
  shows "get_model env i s =
           (Inl (IkeaException (''Error downloading model for #'' @ i @ '': ''
                                 @ ''No model available for #'' @ i)), s1)"
  using assms by (simp add: get_model_def Let_def get_model_download_def reraise_def)

text \<open>The loop of \<^verbatim>\<open>search\<close>: each round makes at most one request.\<close>

lemma get_exists_value_grows: "grows (Suc 0) s (snd (get_exists_value env v s))"
  by (cases v) (simp_all add: get_exists_value_def get_exists_grows grows_mono[OF grows_refl])

lemma search_item_grows: "grows (Suc 0) s (snd (search_item env i s))"
proof -
  have r: "grows (Suc 0) s s" by (rule grows_mono[OF grows_refl]) simp
  show ?thesis
  proof (cases "py_getitem i ''product''")
    case (Inl e)
    with r show ?thesis by (simp add: search_item_def)
  next
    case p: (Inr p)
    show ?thesis
    proof (cases "check_fields p FIELDS True")
      case (Inl e)
      with p r show ?thesis by (simp add: search_item_def)
    next
      case valid: (Inr valid)
      show ?thesis
      proof (cases valid)
        case False
        with p valid r show ?thesis by (simp add: search_item_def)
      next
        case True
        show ?thesis
        proof (cases "py_getitem p ''itemNo''")
          case (Inl e)
          with p valid True r show ?thesis by (simp add: search_item_def)
        next
          case (Inr itemNo)
          obtain a s1 where g: "get_exists_value env itemNo s = (a, s1)"
            by (cases "get_exists_value env itemNo s")
          with get_exists_value_grows[of s env itemNo] have "grows (Suc 0) s s1" by simp
          with p valid True Inr g show ?thesis
            by (cases a) (auto simp: search_item_def split: sum.splits)
        qed
      qed
    qed
  qed
qed

lemma grows_extends: "grows n s s' \<Longrightarrow> extends s s'"
  by (auto simp: grows_def extends_def)

lemma extends_refl: "extends s s"
  by (simp add: extends_def same_client_refl)

lemma extends_trans: "extends s s1 \<Longrightarrow> extends s1 s2 \<Longrightarrow> extends s s2"
  unfolding extends_def by (elim conjE exE) (auto intro: same_client_trans)

lemma search_loop_extends: "extends s (snd (search_loop env items results s))"
proof (induction items arbitrary: results s)
  case Nil
  show ?case by (simp add: extends_refl)
next
  case (Cons i items)
  obtain a s1 where si: "search_item env i s = (a, s1)" by (cases "search_item env i s")
  with search_item_grows[of s env i] have e1: "extends s s1" by (simp add: grows_extends)
  show ?case
  proof (cases a)
    case (Inl e)
    with si e1 show ?thesis by simp
  next
    case (Inr r)
    show ?thesis
    proof (cases r)
      case None
      with si Inr e1 Cons.IH[of s1 results] show ?thesis by (simp add: extends_trans)
    next
      case (Some x)
      with si Inr e1 Cons.IH[of s1 "results @ [x]"] show ?thesis by (simp add: extends_trans)
    qed
  qed
qed

lemma grows_length: "grows n s s' \<Longrightarrow> length (requests s') \<le> length (requests s) + n"
  by (auto simp: grows_def)

lemma grows_same_client: "grows n s s' \<Longrightarrow> same_client s s'"
  by (simp add: grows_def)

lemma extends_same_client: "extends s s' \<Longrightarrow> same_client s s'"
  by (simp add: extends_def)

lemma search_cases:
  "snd (search env q s) = snd (priv_get env (search_url s) (search_params q) Get_json_headers_default s)
   \<or> (\<exists>items. snd (search env q s) =
         snd (search_loop env items []
               (snd (priv_get env (search_url s) (search_params q) Get_json_headers_default s))))"
proof -
  obtain a s1 where pj:
    "priv_get_json env (search_url s) (search_params q) Get_json_headers_default s = (a, s1)"
    by (cases "priv_get_json env (search_url s) (search_params q) Get_json_headers_default s")
  with snd_priv_get_json[of env "search_url s" "search_params q" Get_json_headers_default s]
  have s1: "s1 = snd (priv_get env (search_url s) (search_params q) Get_json_headers_default s)"
    by simp
  show ?thesis
  proof (cases a)
    case (Inl e)
    with pj s1 show ?thesis by (simp add: search_def reraise_Inl_eq)
  next
    case (Inr sr)
    show ?thesis
    proof (cases "search_items sr")
      case (Inl e)
      with pj s1 Inr show ?thesis by (simp add: search_def reraise_Inr_eq)
    next
      case items: (Inr items)
      with pj Inr have "snd (search env q s) = snd (search_loop env items [] s1)"
        by (simp add: search_def reraise_Inr_eq)
      with s1 show ?thesis by blast
    qed
  qed
qed

lemma search_requests:
  "\<exists>rs. requests (snd (search env q s)) =
     requests s @ \<lparr>req_url = search_url s, req_params = search_params q,
       req_headers = deref (add_api_headers (search_url s) Get_json_headers_default s)
                       Get_json_headers_default\<rparr> # rs"
proof -
  let ?s1 = "snd (priv_get env (search_url s) (search_params q) Get_json_headers_default s)"
  from search_cases[of env q s] show ?thesis
  proof
    assume "snd (search env q s) = ?s1"
    then show ?thesis by (simp add: priv_get_requests)
  next
    assume "\<exists>items. snd (search env q s) = snd (search_loop env items [] ?s1)"
    then obtain items where i: "snd (search env q s) = snd (search_loop env items [] ?s1)" by blast
    from search_loop_extends[of ?s1 env items "[]"] obtain rs where
      "requests (snd (search_loop env items [] ?s1)) = requests ?s1 @ rs"
      by (auto simp: extends_def)
    with i show ?thesis by (simp add: priv_get_requests)
  qed
qed

lemma search_same_client: "same_client s (snd (search env q s))"
proof -
  let ?s1 = "snd (priv_get env (search_url s) (search_params q) Get_json_headers_default s)"
  have a: "same_client s ?s1" by (rule priv_get_frame)
  from search_cases[of env q s] show ?thesis
  proof
    assume "snd (search env q s) = ?s1"
    with a show ?thesis by simp
  next
    assume "\<exists>items. snd (search env q s) = snd (search_loop env items [] ?s1)"
    then obtain items where i: "snd (search env q s) = snd (search_loop env items [] ?s1)" by blast
    from search_loop_extends[of ?s1 env items "[]"]
    have "same_client ?s1 (snd (search_loop env items [] ?s1))" by (rule extends_same_client)
    with a i show ?thesis by (simp add: same_client_trans)
  qed
qed

lemma search_params_values:
  "search_params q =
     (if is_item_no q
      then [(''types'', ''PRODUCT''), (''q'', q), (''size'', ''1''), (''c'', ''sr''),
            (''v'', ''20210322'')]
      else [(''types'', ''PRODUCT''), (''q'', q), (''size'', ''24''), (''c'', ''sr''),
            (''v'', ''20210322''), (''autocorrect'', ''true''),
            (''subcategories-style'', ''tree-navigation'')])"
  by (simp add: search_params_def)

text \<open>The definitions to unfold when a run in the concrete world is evaluated.\<close>

lemmas run_simps =
  fresh_def empty_world_def IkeaApiWrapper_init_def shop_def server_env_def shop_pages_def
  shop_json_def parse_with_def unparse_with_def
  priv_get_def priv_get_json_def add_api_headers_def setitem_def deref_def reraise_def
  write_file_def read_json_def path_exists_def
  exists_url_def model_url_def pip_url_def search_url_def
  get_exists_def get_exists_download_def get_exists_return_def
  get_pip_def get_pip_download_def get_thumbnail_def get_thumbnail_download_def
  get_model_def get_model_download_def
  search_def search_params_def search_items_def search_item_def FIELDS_def
  get_exists_value_def build_result_def
  Let_def CLIENT_ID_def USER_AGENT_def

lemmas item_no_simps =
  is_item_no_def item_no_pattern_def is_digit_def numeral_3_eq_3 numeral_2_eq_2


subsection \<open>Claim C4: \<^verbatim>\<open>get_model\<close> when no model exists\<close>

text \<open>
  Claim C4. For an item with no cached model file, if \<^verbatim>\<open>get_exists\<close> returns a false
  value, then \<^verbatim>\<open>get_model\<close> raises the client error and ends in the state that
  \<^verbatim>\<open>get_exists\<close> left: the model file is still absent and the entry of the model path is
  unchanged, and the only request that can have been made is the one to the existence URL,
  so none went to the model-metadata or a model-binary URL.
\<close>

theorem get_model_without_model:
  assumes "\<not> path_exists s (cache_dir s, itemNo, ''model.glb'')"
    and "get_exists env itemNo s = (Inr v, s1)"
    and "\<not> py_truthy v"
  shows "(\<exists>m. get_model env itemNo s = (Inl (IkeaException m), s1))
       \<and> \<not> path_exists s1 (cache_dir s1, itemNo, ''model.glb'')
       \<and> map_of (files s1) (cache_dir s, itemNo, ''model.glb'')
           = map_of (files s) (cache_dir s, itemNo, ''model.glb'')
       \<and> (requests s1 = requests s
            \<or> (\<exists>h. requests s1 = requests s
                  @ [\<lparr>req_url = exists_url s itemNo, req_params = [], req_headers = h\<rparr>]))"
proof -
  have m: "get_model env itemNo s =
      (Inl (IkeaException (''Error downloading model for #'' @ itemNo @ '': ''
                            @ ''No model available for #'' @ itemNo)), s1)"
    using assms by (rule get_model_no_model)
  from get_exists_cases[OF assms(2)]
  have st: "cache_dir s1 = cache_dir s
      \<and> map_of (files s1) (cache_dir s, itemNo, ''model.glb'')
           = map_of (files s) (cache_dir s, itemNo, ''model.glb'')
      \<and> (requests s1 = requests s
            \<or> (\<exists>h. requests s1 = requests s
                  @ [\<lparr>req_url = exists_url s itemNo, req_params = [], req_headers = h\<rparr>]))"
    by (elim disjE conjE exE)
       (simp_all add: priv_get_cache_dir priv_get_requests update_conv')
  with assms(1) have "\<not> path_exists s1 (cache_dir s1, itemNo, ''model.glb'')"
    by (simp add: path_exists_def)
  with m st show ?thesis by blast
qed

theorem get_model_without_model_witness:
  "\<not> path_exists fresh (cache_dir fresh, ''00000001'', ''model.glb'')
   \<and> fst (get_exists shop ''00000001'' fresh) = Inr (JBool False)
   \<and> \<not> py_truthy (JBool False)
   \<and> (\<exists>m. fst (get_model shop ''00000001'' fresh) = Inl (IkeaException m))
   \<and> snd (get_model shop ''00000001'' fresh) = snd (get_exists shop ''00000001'' fresh)
   \<and> \<not> path_exists (snd (get_model shop ''00000001'' fresh)) (''cache'', ''00000001'', ''model.glb'')
   \<and> map req_url (requests (snd (get_model shop ''00000001'' fresh)))
       = [''https://web-api.ikea.com/ie/en/rotera/data/exists/00000001/'']"
proof -
  have a: "\<not> path_exists fresh (cache_dir fresh, ''00000001'', ''model.glb'')"
    by (simp add: run_simps)
  have f: "fst (get_exists shop ''00000001'' fresh) = Inr (JBool False)"
    by (simp add: run_simps)
  then have b: "get_exists shop ''00000001'' fresh
      = (Inr (JBool False), snd (get_exists shop ''00000001'' fresh))"
    by (metis prod.collapse)
  have c: "\<not> py_truthy (JBool False)" by simp
  have d: "cache_dir (snd (get_exists shop ''00000001'' fresh)) = ''cache''"
    by (simp add: run_simps)
  have e: "map req_url (requests (snd (get_exists shop ''00000001'' fresh)))
       = [''https://web-api.ikea.com/ie/en/rotera/data/exists/00000001/'']"
    by (simp add: run_simps)
  from get_model_without_model[OF a b c] obtain m where
    g: "get_model shop ''00000001'' fresh = (Inl (IkeaException m), snd (get_exists shop ''00000001'' fresh))"
    and n: "\<not> path_exists (snd (get_exists shop ''00000001'' fresh))
              (cache_dir (snd (get_exists shop ''00000001'' fresh)), ''00000001'', ''model.glb'')"
    by blast
  from g have g1: "fst (get_model shop ''00000001'' fresh) = Inl (IkeaException m)"
    and g2: "snd (get_model shop ''00000001'' fresh) = snd (get_exists shop ''00000001'' fresh)"
    by simp_all
  from g1 have g1': "\<exists>m. fst (get_model shop ''00000001'' fresh) = Inl (IkeaException m)" by blast
  from n d g2 have n': "\<not> path_exists (snd (get_model shop ''00000001'' fresh))
      (''cache'', ''00000001'', ''model.glb'')" by simp
  from e g2 have e': "map req_url (requests (snd (get_model shop ''00000001'' fresh)))
       = [''https://web-api.ikea.com/ie/en/rotera/data/exists/00000001/'']" by simp
  from a f c g1' g2 n' e' show ?thesis by (intro conjI)
qed

subsection \<open>Claim C6: the parameters of the search request\<close>

text \<open>
  What does hold: \<^verbatim>\<open>search\<close> always issues a request to the search URL as its first
  request, and its query parameters follow the test the code makes: for a query that
  \<^verbatim>\<open>is_item_no\<close> accepts, \<^verbatim>\<open>size=1\<close> and no \<^verbatim>\<open>autocorrect\<close>; for any other query,
  \<^verbatim>\<open>size=24\<close>, \<^verbatim>\<open>autocorrect=true\<close> and \<^verbatim>\<open>subcategories-style=tree-navigation\<close>.
\<close>

lemma search_request_params:
  "\<exists>h rs. requests (snd (search env query s)) =
     requests s @
       \<lparr>req_url = search_url s,
        req_params =
          (if is_item_no query
           then [(''types'', ''PRODUCT''), (''q'', query), (''size'', ''1''), (''c'', ''sr''),
                 (''v'', ''20210322'')]
           else [(''types'', ''PRODUCT''), (''q'', query), (''size'', ''24''), (''c'', ''sr''),
                 (''v'', ''20210322''), (''autocorrect'', ''true''),
                 (''subcategories-style'', ''tree-navigation'')]),
        req_headers = h\<rparr> # rs"
  using search_requests[of env query s] unfolding search_params_values by blast

lemma search_request_params_examples:
  "is_item_no ''123.456.78'' \<and> \<not> is_item_no ''chair''
   \<and> (\<exists>h rs. requests (snd (search shop ''123.456.78'' fresh)) =
         [\<lparr>req_url = ''https://sik.search.blue.cdtapps.com/ie/en/search-result-page'',
           req_params = [(''types'', ''PRODUCT''), (''q'', ''123.456.78''), (''size'', ''1''),
                         (''c'', ''sr''), (''v'', ''20210322'')],
           req_headers = h\<rparr>] @ rs)
   \<and> (\<exists>h rs. requests (snd (search shop ''chair'' fresh)) =
         [\<lparr>req_url = ''https://sik.search.blue.cdtapps.com/ie/en/search-result-page'',
           req_params = [(''types'', ''PRODUCT''), (''q'', ''chair''), (''size'', ''24''),
                         (''c'', ''sr''), (''v'', ''20210322''), (''autocorrect'', ''true''),
                         (''subcategories-style'', ''tree-navigation'')],
           req_headers = h\<rparr>] @ rs)"
proof -
  have a: "is_item_no ''123.456.78''" by (simp add: item_no_simps)
  have b: "\<not> is_item_no ''chair''" by (simp add: item_no_simps)
  have u: "search_url fresh = ''https://sik.search.blue.cdtapps.com/ie/en/search-result-page''"
    by (simp add: run_simps)
  have r: "requests fresh = []" by (simp add: run_simps)
  from search_request_params[of shop "''123.456.78''" fresh] a u r
  have c: "\<exists>h rs. requests (snd (search shop ''123.456.78'' fresh)) =
         [\<lparr>req_url = ''https://sik.search.blue.cdtapps.com/ie/en/search-result-page'',
           req_params = [(''types'', ''PRODUCT''), (''q'', ''123.456.78''), (''size'', ''1''),
                         (''c'', ''sr''), (''v'', ''20210322'')],
           req_headers = h\<rparr>] @ rs"
    by simp
  from search_request_params[of shop "''chair''" fresh] b u r
  have d: "\<exists>h rs. requests (snd (search shop ''chair'' fresh)) =
         [\<lparr>req_url = ''https://sik.search.blue.cdtapps.com/ie/en/search-result-page'',
           req_params = [(''types'', ''PRODUCT''), (''q'', ''chair''), (''size'', ''24''),
                         (''c'', ''sr''), (''v'', ''20210322''), (''autocorrect'', ''true''),
                         (''subcategories-style'', ''tree-navigation'')],
           req_headers = h\<rparr>] @ rs"
    by simp
  from a b c d show ?thesis by (intro conjI)
qed

text \<open>
  Read with the spec's notion of a valid item identifier, the claim holds for every valid
  identifier, and the free-text branch holds for every query that \<^verbatim>\<open>is_item_no\<close> rejects.
\<close>

lemma search_request_spec:
  "spec_item_no query \<Longrightarrow>
     \<exists>h rs. requests (snd (search env query s)) =
       requests s @
         \<lparr>req_url = search_url s,
          req_params = [(''types'', ''PRODUCT''), (''q'', query), (''size'', ''1''),
                        (''c'', ''sr''), (''v'', ''20210322'')],
          req_headers = h\<rparr> # rs"
  "\<not> is_item_no query \<Longrightarrow>
     \<exists>h rs. requests (snd (search env query s)) =
       requests s @
         \<lparr>req_url = search_url s,
          req_params = [(''types'', ''PRODUCT''), (''q'', query), (''size'', ''24''),
                        (''c'', ''sr''), (''v'', ''20210322''), (''autocorrect'', ''true''),
                        (''subcategories-style'', ''tree-navigation'')],
          req_headers = h\<rparr> # rs"
proof -
  assume "spec_item_no query"
  then have "is_item_no query" by (simp add: is_item_no_iff)
  with search_request_params[of env query s]
  show "\<exists>h rs. requests (snd (search env query s)) =
       requests s @
         \<lparr>req_url = search_url s,
          req_params = [(''types'', ''PRODUCT''), (''q'', query), (''size'', ''1''),
                        (''c'', ''sr''), (''v'', ''20210322'')],
          req_headers = h\<rparr> # rs"
    by simp
next
  assume "\<not> is_item_no query"
  with search_request_params[of env query s]
  show "\<exists>h rs. requests (snd (search env query s)) =
       requests s @
         \<lparr>req_url = search_url s,
          req_params = [(''types'', ''PRODUCT''), (''q'', query), (''size'', ''24''),
                        (''c'', ''sr''), (''v'', ''20210322''), (''autocorrect'', ''true''),
                        (''subcategories-style'', ''tree-navigation'')],
          req_headers = h\<rparr> # rs"
    by simp
qed

text \<open>
  Claim C6. The claim says that a query which is not a valid item identifier is sent with
  \<^verbatim>\<open>size=24\<close>, \<^verbatim>\<open>autocorrect=true\<close> and \<^verbatim>\<open>subcategories-style=tree-navigation\<close>. The
  query \<^verbatim>\<open>"12345678\n"\<close> is not a valid item identifier (nine characters, the last one a
  newline), yet \<^verbatim>\<open>is_item_no\<close> accepts it, and \<^verbatim>\<open>search\<close> sends it with \<^verbatim>\<open>size=1\<close>
  and without \<^verbatim>\<open>autocorrect\<close>.
\<close>

theorem search_newline_query_exact_lookup:
  "\<not> spec_item_no (''12345678'' @ [CHR 0x0A])
   \<and> take 1 (requests (snd (search shop (''12345678'' @ [CHR 0x0A]) fresh))) =
       [\<lparr>req_url = ''https://sik.search.blue.cdtapps.com/ie/en/search-result-page'',
         req_params = [(''types'', ''PRODUCT''), (''q'', ''12345678'' @ [CHR 0x0A]),
                       (''size'', ''1''), (''c'', ''sr''), (''v'', ''20210322'')],
         req_headers = []\<rparr>]
   \<and> map_of (req_params (hd (requests (snd (search shop (''12345678'' @ [CHR 0x0A]) fresh)))))
         ''autocorrect'' = None"
  using not_spec_item_no_newline
  by (simp add: run_simps item_no_simps)

subsection \<open>Claim C9: the client's fields are never changed\<close>

text \<open>
  Claim C9. Whatever an operation returns or raises, the state it leaves has the country,
  the language and the cache root that the state before it had. The three string helpers
  take no state at all.
\<close>

theorem region_context_fixed:
  "country (IkeaApiWrapper_init c l w) = c \<and> language (IkeaApiWrapper_init c l w) = l
   \<and> cache_dir (IkeaApiWrapper_init c l w) = ''cache''
   \<and> same_client s (snd (search env query s))
   \<and> same_client s (snd (get_pip env itemNo s))
   \<and> same_client s (snd (get_exists env itemNo s))
   \<and> same_client s (snd (get_model env itemNo s))
   \<and> same_client s (snd (get_thumbnail env itemNo url s))
   \<and> same_client s (snd (priv_get env url params headers s))
   \<and> same_client s (snd (priv_get_json env url params headers s))"
  by (intro conjI search_same_client grows_same_client[OF get_pip_grows]
      grows_same_client[OF get_exists_grows] grows_same_client[OF get_model_grows]
      grows_same_client[OF get_thumbnail_grows] priv_get_frame)
     (simp_all add: snd_priv_get_json priv_get_frame IkeaApiWrapper_init_def)

theorem region_context_fixed_witness:
  "country (snd (get_model shop ''12345678'' fresh)) = ''ie''
   \<and> language (snd (get_model shop ''12345678'' fresh)) = ''en''
   \<and> cache_dir (snd (get_model shop ''12345678'' fresh)) = ''cache''
   \<and> country (snd (search shop ''chair'' fresh)) = ''ie''
   \<and> language (snd (search shop ''chair'' fresh)) = ''en''
   \<and> cache_dir (snd (search shop ''chair'' fresh)) = ''cache''"
proof -
  have f: "country fresh = ''ie''" "language fresh = ''en''" "cache_dir fresh = ''cache''"
    by (simp_all add: fresh_def IkeaApiWrapper_init_def)
  from region_context_fixed[of "''ie''" "''en''" empty_world fresh shop "''chair''" "''12345678''"]
  have "same_client fresh (snd (search shop ''chair'' fresh))"
    and "same_client fresh (snd (get_model shop ''12345678'' fresh))"
    by simp_all
  with f show ?thesis by (simp add: same_client_def)
qed

subsection \<open>Claim C5: a second call is served from the cache\<close>

text \<open>
  Claim C5 says that two calls in succession make at most one network fetch. For
  \<^verbatim>\<open>get_model\<close> that is not so: on an empty cache the first call makes three requests
  (existence check, model metadata, model binary), as the design has it, and the second
  none.
\<close>

theorem get_model_twice_counterexample:
  "fst (get_model shop ''12345678'' fresh) = Inr (''cache'', ''12345678'', ''model.glb'')
   \<and> fst (get_model shop ''12345678'' (snd (get_model shop ''12345678'' fresh)))
        = Inr (''cache'', ''12345678'', ''model.glb'')
   \<and> requests fresh = []
   \<and> map req_url
         (requests (snd (get_model shop ''12345678'' (snd (get_model shop ''12345678'' fresh)))))
        = [''https://web-api.ikea.com/ie/en/rotera/data/exists/12345678/'',
           ''https://web-api.ikea.com/ie/en/rotera/data/model/12345678/'',
           ''https://cdn.example.com/12345678.glb'']
   \<and> \<not> length (requests (snd (get_model shop ''12345678''
                                   (snd (get_model shop ''12345678'' fresh)))))
          \<le> length (requests fresh) + 1"
  by (simp add: run_simps)

text \<open>
  Claim C5, amended. Whenever the first call of one of the four operations returns, a
  second call in the state it left returns the same value and leaves that state as it is:
  it makes no request and writes nothing. The first call makes at most one request for
  \<^verbatim>\<open>get_pip\<close>, \<^verbatim>\<open>get_exists\<close> and \<^verbatim>\<open>get_thumbnail\<close>, and at most three for
  \<^verbatim>\<open>get_model\<close>.
\<close>

theorem second_call_from_cache:
  "(get_pip env itemNo s = (Inr v, s1) \<longrightarrow>
      get_pip env itemNo s1 = (Inr v, s1) \<and> length (requests s1) \<le> length (requests s) + 1)
   \<and> (get_exists env itemNo s = (Inr w, s2) \<longrightarrow>
      get_exists env itemNo s2 = (Inr w, s2) \<and> length (requests s2) \<le> length (requests s) + 1)
   \<and> (get_thumbnail env itemNo url s = (Inr p, s3) \<longrightarrow>
      get_thumbnail env itemNo url s3 = (Inr p, s3)
      \<and> length (requests s3) \<le> length (requests s) + 1)
   \<and> (get_model env itemNo s = (Inr q, s4) \<longrightarrow>
      get_model env itemNo s4 = (Inr q, s4) \<and> length (requests s4) \<le> length (requests s) + 3)"
proof (intro conjI impI)
  assume a: "get_pip env itemNo s = (Inr v, s1)"
  then show "get_pip env itemNo s1 = (Inr v, s1)" by (rule get_pip_again)
  from grows_length[OF get_pip_grows[of s env itemNo]] a
  show "length (requests s1) \<le> length (requests s) + 1" by simp
next
  assume a: "get_exists env itemNo s = (Inr w, s2)"
  then show "get_exists env itemNo s2 = (Inr w, s2)" by (rule get_exists_again)
  from grows_length[OF get_exists_grows[of s env itemNo]] a
  show "length (requests s2) \<le> length (requests s) + 1" by simp
next
  assume a: "get_thumbnail env itemNo url s = (Inr p, s3)"
  then show "get_thumbnail env itemNo url s3 = (Inr p, s3)" by (rule get_thumbnail_again)
  from grows_length[OF get_thumbnail_grows[of s env itemNo url]] a
  show "length (requests s3) \<le> length (requests s) + 1" by simp
next
  assume a: "get_model env itemNo s = (Inr q, s4)"
  then show "get_model env itemNo s4 = (Inr q, s4)" by (rule get_model_again)
  from grows_length[OF get_model_grows[of s env itemNo]] a
  show "length (requests s4) \<le> length (requests s) + 3" by simp
qed

theorem second_call_from_cache_witness:
  "fst (get_pip shop ''12345678'' fresh) = Inr (JObj [(''name'', JStr ''Chair'')])
   \<and> get_pip shop ''12345678'' (snd (get_pip shop ''12345678'' fresh))
       = (Inr (JObj [(''name'', JStr ''Chair'')]), snd (get_pip shop ''12345678'' fresh))
   \<and> fst (get_exists shop ''12345678'' fresh) = Inr (JBool True)
   \<and> get_exists shop ''12345678'' (snd (get_exists shop ''12345678'' fresh))
       = (Inr (JBool True), snd (get_exists shop ''12345678'' fresh))
   \<and> fst (get_thumbnail shop ''12345678'' ''https://www.ikea.com/ie/en/images/chair.jpg'' fresh)
       = Inr (''cache'', ''12345678'', ''thumbnail.jpg'')
   \<and> get_thumbnail shop ''12345678'' ''https://www.ikea.com/ie/en/images/chair.jpg''
         (snd (get_thumbnail shop ''12345678'' ''https://www.ikea.com/ie/en/images/chair.jpg''
                 fresh))
       = (Inr (''cache'', ''12345678'', ''thumbnail.jpg''),
          snd (get_thumbnail shop ''12345678'' ''https://www.ikea.com/ie/en/images/chair.jpg''
                 fresh))
   \<and> fst (get_model shop ''12345678'' fresh) = Inr (''cache'', ''12345678'', ''model.glb'')
   \<and> get_model shop ''12345678'' (snd (get_model shop ''12345678'' fresh))
       = (Inr (''cache'', ''12345678'', ''model.glb''), snd (get_model shop ''12345678'' fresh))
   \<and> length (requests (snd (get_model shop ''12345678'' fresh))) \<le> length (requests fresh) + 3"
proof -
  let ?u = "''https://www.ikea.com/ie/en/images/chair.jpg''"
  have f1: "fst (get_pip shop ''12345678'' fresh) = Inr (JObj [(''name'', JStr ''Chair'')])"
    by (simp add: run_simps)
  have f2: "fst (get_exists shop ''12345678'' fresh) = Inr (JBool True)"
    by (simp add: run_simps)
  have f3: "fst (get_thumbnail shop ''12345678'' ?u fresh)
      = Inr (''cache'', ''12345678'', ''thumbnail.jpg'')"
    by (simp add: run_simps)
  have f4: "fst (get_model shop ''12345678'' fresh) = Inr (''cache'', ''12345678'', ''model.glb'')"
    by (simp add: run_simps)
  from f1 have h1: "get_pip shop ''12345678'' fresh
      = (Inr (JObj [(''name'', JStr ''Chair'')]), snd (get_pip shop ''12345678'' fresh))"
    by (metis prod.collapse)
  from f2 have h2: "get_exists shop ''12345678'' fresh
      = (Inr (JBool True), snd (get_exists shop ''12345678'' fresh))"
    by (metis prod.collapse)
  from f3 have h3: "get_thumbnail shop ''12345678'' ?u fresh
      = (Inr (''cache'', ''12345678'', ''thumbnail.jpg''),
         snd (get_thumbnail shop ''12345678'' ?u fresh))"
    by (metis prod.collapse)
  from f4 have h4: "get_model shop ''12345678'' fresh
      = (Inr (''cache'', ''12345678'', ''model.glb''), snd (get_model shop ''12345678'' fresh))"
    by (metis prod.collapse)
  note t = second_call_from_cache[of shop "''12345678''" fresh]
  from t[THEN conjunct1, rule_format, OF h1]
  have g1: "get_pip shop ''12345678'' (snd (get_pip shop ''12345678'' fresh))
       = (Inr (JObj [(''name'', JStr ''Chair'')]), snd (get_pip shop ''12345678'' fresh))"
    by (rule conjunct1)
  from t[THEN conjunct2, THEN conjunct1, rule_format, OF h2]
  have g2: "get_exists shop ''12345678'' (snd (get_exists shop ''12345678'' fresh))
       = (Inr (JBool True), snd (get_exists shop ''12345678'' fresh))"
    by (rule conjunct1)
  from t[THEN conjunct2, THEN conjunct2, THEN conjunct1, rule_format, OF h3]
  have g3: "get_thumbnail shop ''12345678'' ?u (snd (get_thumbnail shop ''12345678'' ?u fresh))
       = (Inr (''cache'', ''12345678'', ''thumbnail.jpg''),
          snd (get_thumbnail shop ''12345678'' ?u fresh))"
    by (rule conjunct1)
  from t[THEN conjunct2, THEN conjunct2, THEN conjunct2, rule_format, OF h4]
  have g4: "get_model shop ''12345678'' (snd (get_model shop ''12345678'' fresh))
       = (Inr (''cache'', ''12345678'', ''model.glb''), snd (get_model shop ''12345678'' fresh))"
    and g5: "length (requests (snd (get_model shop ''12345678'' fresh)))
       \<le> length (requests fresh) + 3"
    by (rule conjunct1, rule conjunct2)
  from f1 g1 f2 g2 f3 g3 f4 g4 g5 show ?thesis by (intro conjI)
qed

subsection \<open>Claim C1: which requests carry the two extra headers\<close>

text \<open>
  What does hold: a request whose URL contains the web-API host name carries both headers.
\<close>

lemma api_request_has_headers:
  assumes "contains_str ''web-api.ikea.com'' url"
  shows "map_of (req_headers (last (requests (snd (priv_get env url ps h s))))) ''X-Client-Id''
           = Some CLIENT_ID
       \<and> map_of (req_headers (last (requests (snd (priv_get env url ps h s))))) ''User-Agent''
           = Some USER_AGENT"
  using assms
  by (cases h) (simp_all add: priv_get_requests add_api_headers_def setitem_def deref_def update_conv')

text \<open>
  Claim C1. The claim says that a request to a host other than \<^verbatim>\<open>web-api.ikea.com\<close> never
  carries the two headers, whatever was requested before. In the code the headers are
  written into the dict that is the default value of parameter \<^verbatim>\<open>headers\<close>, which all
  later calls share. After one \<^verbatim>\<open>get_exists\<close> (a request to the web-API host), the request
  of \<^verbatim>\<open>get_thumbnail\<close> to \<^verbatim>\<open>www.ikea.com\<close> carries both headers; the same call in a fresh
  process carries none.
\<close>

theorem headers_follow_earlier_request:
  "req_url (last (requests (snd (get_thumbnail shop ''12345678''
       ''https://www.ikea.com/ie/en/images/chair.jpg''
       (snd (get_exists shop ''12345678'' fresh))))))
     = ''https://www.ikea.com/ie/en/images/chair.jpg''
   \<and> url_netloc ''https://www.ikea.com/ie/en/images/chair.jpg'' = ''www.ikea.com''
   \<and> req_headers (last (requests (snd (get_thumbnail shop ''12345678''
         ''https://www.ikea.com/ie/en/images/chair.jpg''
         (snd (get_exists shop ''12345678'' fresh))))))
       = [(''X-Client-Id'', CLIENT_ID), (''User-Agent'', USER_AGENT)]
   \<and> req_headers (last (requests (snd (get_thumbnail shop ''12345678''
         ''https://www.ikea.com/ie/en/images/chair.jpg'' fresh))))
       = []"
  by (simp add: run_simps url_netloc_def)

subsection \<open>Claim C2: an item of the search response that lacks a field\<close>

text \<open>
  What does hold: for a product that is a dict and has a \<^verbatim>\<open>name\<close>, the inner loop raises
  nothing and reports whether all four fields are there; such an item with a field missing
  is dropped and the state is untouched.
\<close>

lemma check_fields_named:
  assumes "map_of kvs ''name'' \<noteq> None"
  shows "check_fields (JObj kvs) fs valid
           = Inr (valid \<and> list_all (\<lambda>f. map_of kvs f \<noteq> None) fs)"
proof (induction fs arbitrary: valid)
  case Nil
  show ?case by simp
next
  case (Cons f fs)
  from assms obtain n where n: "map_of kvs ''name'' = Some n" by blast
  show ?case
  proof (cases "map_of kvs f")
    case None
    with n Cons.IH[of False] show ?thesis by simp
  next
    case (Some y)
    with Cons.IH[of valid] show ?thesis by simp
  qed
qed

lemma search_item_drops_named:
  assumes "py_getitem i ''product'' = Inr (JObj kvs)" and "map_of kvs ''name'' \<noteq> None"
    and "\<not> list_all (\<lambda>f. map_of kvs f \<noteq> None) FIELDS"
  shows "search_item env i s = (Inr None, s)"
  using assms by (simp add: search_item_def check_fields_named)

text \<open>
  Claim C2. The claim says an item lacking one of the four fields is dropped without an
  error even when \<^verbatim>\<open>name\<close> is missing too. The only item of the response below has
  \<^verbatim>\<open>itemNo\<close>, \<^verbatim>\<open>mainImageUrl\<close> and \<^verbatim>\<open>pipUrl\<close>, and neither \<^verbatim>\<open>mainImageAlt\<close> nor
  \<^verbatim>\<open>name\<close>: building the log line subscripts \<^verbatim>\<open>p["name"]\<close>, and \<^verbatim>\<open>search\<close> ends with
  \<^verbatim>\<open>KeyError\<close> instead of returning the empty list.
\<close>

theorem search_item_without_name_raises:
  "fst (search shop ''chair'' fresh) = Inl (KeyError ''name'')
   \<and> search_items (JObj [(''searchResultPage'', JObj [(''products'', JObj [(''main'',
        JObj [(''items'', JArr [JObj [(''product'', JObj [(''itemNo'', JStr ''12345678''),
          (''mainImageUrl'', JStr ''https://www.ikea.com/ie/en/images/chair.jpg''),
          (''pipUrl'', JStr ''https://www.ikea.com/ie/en/p/chair-12345678/'')])]])])])])])
       = Inr [JObj [(''product'', JObj [(''itemNo'', JStr ''12345678''),
          (''mainImageUrl'', JStr ''https://www.ikea.com/ie/en/images/chair.jpg''),
          (''pipUrl'', JStr ''https://www.ikea.com/ie/en/p/chair-12345678/'')])]]
   \<and> fst (search_item shop (JObj [(''product'', JObj [(''itemNo'', JStr ''12345678''),
          (''mainImageUrl'', JStr ''https://www.ikea.com/ie/en/images/chair.jpg''),
          (''pipUrl'', JStr ''https://www.ikea.com/ie/en/p/chair-12345678/'')])]) fresh)
       = Inl (KeyError ''name'')"
  by (simp add: run_simps item_no_simps)

subsection \<open>Claim C3: which errors reach the caller\<close>

text \<open>
  What does hold: an error of \<^verbatim>\<open>_get\<close>, \<^verbatim>\<open>get_thumbnail\<close> or \<^verbatim>\<open>get_model\<close> is always
  the client error, since all that can fail there stands inside a \<^verbatim>\<open>try\<close> (the test
  whether the cache file exists apart, which the model takes not to fail).
\<close>

lemma priv_get_error:
  assumes "priv_get env url ps h s = (Inl e, s1)"
  shows "is_IkeaException e"
  using assms unfolding priv_get_def Let_def by (rule reraise_Inl[THEN conjunct1])

lemma get_thumbnail_error:
  assumes "get_thumbnail env i url s = (Inl e, s1)"
  shows "is_IkeaException e"
  using get_thumbnail_cases[OF assms] by auto

lemma get_model_error:
  assumes "get_model env i s = (Inl e, s1)"
  shows "is_IkeaException e"
proof (cases "path_exists s (cache_dir s, i, ''model.glb'')")
  case True
  with assms show ?thesis by (simp add: get_model_def Let_def)
next
  case False
  obtain a s2 where d: "get_model_download env i (cache_dir s, i, ''model.glb'') s = (a, s2)"
    by (cases "get_model_download env i (cache_dir s, i, ''model.glb'') s")
  show ?thesis
  proof (cases a)
    case (Inl x)
    with assms False d show ?thesis by (auto simp: get_model_def Let_def reraise_Inl_eq)
  next
    case (Inr u)
    with assms False d show ?thesis by (simp add: get_model_def Let_def reraise_Inr_eq)
  qed
qed

text \<open>
  Claim C3. The claim says every failure reaches the caller as the client error. The last
  line of \<^verbatim>\<open>get_exists\<close> and of \<^verbatim>\<open>get_pip\<close> parses the cache file after the \<^verbatim>\<open>try\<close>
  has ended: a 200 response of the existence service with body \<^verbatim>\<open>{}\<close> gives a raw
  \<^verbatim>\<open>KeyError\<close>, one that is not JSON a raw \<^verbatim>\<open>JSONDecodeError\<close>, and so does a cached
  \<^verbatim>\<open>pip.json\<close> that is empty.
\<close>

theorem raw_errors_reach_caller:
  "fst (get_exists shop ''00000002'' fresh) = Inl (KeyError ''exists'')
   \<and> fst (get_exists shop ''00000003'' fresh)
       = Inl (JSONDecodeError ''Expecting value: line 1 column 1 (char 0)'')
   \<and> fst (get_pip shop ''12345678''
             (fresh\<lparr>files := [((''cache'', ''12345678'', ''pip.json''), [])]\<rparr>))
       = Inl (JSONDecodeError ''Expecting value: line 1 column 1 (char 0)'')
   \<and> \<not> is_IkeaException (KeyError ''exists'')
   \<and> \<not> is_IkeaException (JSONDecodeError ''Expecting value: line 1 column 1 (char 0)'')"
  by (simp add: run_simps)

end
